theory Spec2Isabelle
  imports Complex_Main "HOL-Library.AList" "HOL-Library.Sublist"
begin

text \<open>
  The core of the speech-to-text plugin: \<open>transcribe\<close> and \<open>listBackends\<close> of \<open>stt.ts\<close>
  with the types and \<open>DEFAULT_CONFIG\<close> of \<open>types.ts\<close>.  Each of the two functions spawns
  the Python worker, collects what it writes, and settles a promise when the worker
  closes or cannot be started.  The platform is a parameter of the model: the parser
  \<open>JSON.parse\<close>, the printer \<open>Number.prototype.toString\<close>, the function \<open>spawn\<close> with
  the events of the child it returns, and the path of the bundled script.
\<close>

section \<open>Configuration objects\<close>

text \<open>
  A field of a \<open>SpeechToTextConfig\<close> is declared \<open>string\<close> or \<open>number\<close> and is optional,
  so at run time it holds a string, a number or \<open>undefined\<close>.  A number is \<open>NaN\<close>, one of
  the two infinities, or a finite double, kept as the rational it is equal to (the two
  zeros are one value: they print alike and both are falsy).
\<close>

datatype number = NaN | Infinity | NegInfinity | Finite rat

datatype cfgval = Undefined | Str string | Num number

text \<open>
  A JavaScript object is the list of its own properties in insertion order; every key
  occurs once.  A key that is absent is different from a key that is present with the
  value \<open>Undefined\<close>.
\<close>

type_synonym config = "(string \<times> cfgval) list"

text \<open>Property read \<open>obj.k\<close>: a missing property reads as \<open>undefined\<close>.\<close>

definition get :: "config \<Rightarrow> string \<Rightarrow> cfgval" where
  "get obj k = (case map_of obj k of None \<Rightarrow> Undefined | Some v \<Rightarrow> v)"

text \<open>
  Object spread \<open>{ ...a, ...b }\<close>: the properties of \<open>a\<close> are copied in order, then each
  property of \<open>b\<close> is written, replacing the value of a key that is already there (in its
  place) and appending a new key.
\<close>

definition spread :: "config \<Rightarrow> config \<Rightarrow> config" where
  "spread a b = foldl (\<lambda>obj (k, v). AList.update k v obj) a b"

definition DEFAULT_CONFIG :: config where
  "DEFAULT_CONFIG =
     [(''backend'', Str ''auto''),
      (''model'', Str ''tiny''),
      (''language'', Str ''en''),
      (''maxDuration'', Num (Finite 30)),
      (''pythonPath'', Str ''python3''),
      (''scriptPath'', Str '''')]"

text \<open>\<open>const mergedConfig = { ...DEFAULT_CONFIG, ...config }\<close>\<close>

definition mergedConfig :: "config \<Rightarrow> config" where
  "mergedConfig config = spread DEFAULT_CONFIG config"

section \<open>The argument list\<close>

text \<open>Truthiness, as \<open>||\<close> tests it.\<close>

fun truthy :: "cfgval \<Rightarrow> bool" where
  "truthy Undefined = False"
| "truthy (Str s) = (s \<noteq> [])"
| "truthy (Num x) = (x \<noteq> NaN \<and> x \<noteq> Finite 0)"

fun dec_nat :: "nat \<Rightarrow> string" where
  "dec_nat n =
     (if n < 10 then [''0123456789'' ! n]
      else dec_nat (n div 10) @ [''0123456789'' ! (n mod 10)])"

definition dec_int :: "int \<Rightarrow> string" where
  "dec_int n = (if n < 0 then CHR ''-'' # dec_nat (nat (- n)) else dec_nat (nat n))"

text \<open>
  \<open>Number.prototype.toString\<close> belongs to the platform: it prints the shortest digits
  that read back as the same double, and the operations below take it as a parameter
  \<open>num_str\<close>.  \<open>Number_toString\<close> is the function to run them with.  It is
  \<open>Number.prototype.toString\<close> on \<open>NaN\<close>, on the infinities and on the safe integers (of
  magnitude at most \<open>2\<^sup>5\<^sup>3 - 1\<close>), which JavaScript prints in plain decimal digits.  On
  the other finite numbers, where the digits depend on the rounding of doubles, it does
  not model the platform: it gives the empty string, which JavaScript prints for no
  number.  No general statement below depends on it.
\<close>

fun Number_toString :: "number \<Rightarrow> string" where
  "Number_toString NaN = ''NaN''"
| "Number_toString Infinity = ''Infinity''"
| "Number_toString NegInfinity = ''-Infinity''"
| "Number_toString (Finite r) =
     (if of_int \<lfloor>r\<rfloor> = r \<and> \<bar>r\<bar> \<le> 2 ^ 53 - 1 then dec_int \<lfloor>r\<rfloor> else [])"

text \<open>
  What is thrown: a \<open>TypeError\<close>, or whatever else \<open>spawn\<close> throws.  \<open>v.toString()\<close> is a
  \<open>TypeError\<close> on \<open>undefined\<close>, the string itself on a string, and what
  \<open>Number.prototype.toString\<close> prints on a number.
\<close>

datatype error = TypeError string | SpawnError string

fun toString :: "(number \<Rightarrow> string) \<Rightarrow> cfgval \<Rightarrow> error + string" where
  "toString num_str Undefined =
     Inl (TypeError ''Cannot read properties of undefined (reading 'toString')'')"
| "toString num_str (Str s) = Inr s"
| "toString num_str (Num x) = Inr (num_str x)"

text \<open>
  \<open>mergedConfig.scriptPath || getScriptPath()\<close>.  The value of \<open>getScriptPath()\<close>, the
  path of the bundled \<open>scripts/stt.py\<close> beside the installed module, depends on where the
  module is installed; the call is taken to return, and its value is the parameter
  \<open>bundled\<close>.
\<close>

definition scriptPath :: "string \<Rightarrow> config \<Rightarrow> cfgval" where
  "scriptPath bundled merged =
     (if truthy (get merged ''scriptPath'') then get merged ''scriptPath'' else Str bundled)"

text \<open>
  The array literal \<open>args\<close> of \<open>transcribe\<close>.  Its elements are evaluated left to right;
  the last one throws when \<open>maxDuration\<close> is \<open>undefined\<close>.
\<close>

definition build_args :: "(number \<Rightarrow> string) \<Rightarrow> string \<Rightarrow> config \<Rightarrow> error + cfgval list" where
  "build_args num_str bundled merged =
     (case toString num_str (get merged ''maxDuration'') of
        Inl e \<Rightarrow> Inl e
      | Inr d \<Rightarrow>
          Inr [scriptPath bundled merged,
               Str ''--backend'', get merged ''backend'',
               Str ''--model'', get merged ''model'',
               Str ''--language'', get merged ''language'',
               Str ''--duration'', Str d])"

section \<open>Values read from the worker\<close>

text \<open>
  What \<open>JSON.parse\<close> returns.  A number is kept as the exact rational its literal denotes
  (rounding to a double is not modelled); an object is the list of its properties in
  insertion order, each key once.
\<close>

datatype json =
    JNull
  | JBool bool
  | JNumber rat
  | JString string
  | JArray "json list"
  | JObject "(string \<times> json) list"

text \<open>
  \<open>JSON.parse\<close> belongs to the platform, so the operations below take the parser as a
  parameter \<open>parse\<close>, with \<open>None\<close> for a thrown \<open>SyntaxError\<close>.  \<open>JSON_parse\<close> is a
  parser of the JSON grammar (ECMA-404) to run them with: whitespace is tab, line feed,
  carriage return and space; a string is a code unit per \<open>char\<close>, so an escape
  \<open>\uXXXX\<close> above \<open>00FF\<close> has no value in this model and is refused.  A duplicate key
  of an object keeps its first place and takes the last value.
\<close>

definition is_ws :: "char \<Rightarrow> bool" where
  "is_ws c = (c \<in> set [CHR 0x09, CHR 0x0A, CHR 0x0D, CHR 0x20])"

definition skip_ws :: "string \<Rightarrow> string" where
  "skip_ws cs = dropWhile is_ws cs"

definition is_digit :: "char \<Rightarrow> bool" where
  "is_digit c = (c \<in> set ''0123456789'')"

definition digit_val :: "char \<Rightarrow> nat" where
  "digit_val c = of_char c - 48"

definition digits_val :: "string \<Rightarrow> nat" where
  "digits_val ds = foldl (\<lambda>n c. 10 * n + digit_val c) 0 ds"

definition hex_val :: "char \<Rightarrow> nat option" where
  "hex_val c =
     (if is_digit c then Some (digit_val c)
      else if c \<in> set ''abcdef'' then Some (of_char c - 87)
      else if c \<in> set ''ABCDEF'' then Some (of_char c - 55)
      else None)"

definition unescape :: "char \<Rightarrow> char option" where
  "unescape c =
     (if c = CHR 0x22 \<or> c = CHR ''/'' \<or> c = CHR 0x5C then Some c
      else if c = CHR ''b'' then Some (CHR 0x08)
      else if c = CHR ''f'' then Some (CHR 0x0C)
      else if c = CHR ''n'' then Some (CHR 0x0A)
      else if c = CHR ''r'' then Some (CHR 0x0D)
      else if c = CHR ''t'' then Some (CHR 0x09)
      else None)"

fun parse_chars :: "string \<Rightarrow> (string \<times> string) option" where
  "parse_chars [] = None"
| "parse_chars (c # cs) =
     (if c = CHR 0x22 then Some ([], cs)
      else if c = CHR 0x5C then
        (case cs of
           [] \<Rightarrow> None
         | e # cs1 \<Rightarrow>
             if e = CHR ''u'' then
               (case cs1 of
                  h1 # h2 # h3 # h4 # cs2 \<Rightarrow>
                    (case (hex_val h1, hex_val h2, hex_val h3, hex_val h4) of
                       (Some a, Some b, Some c, Some d) \<Rightarrow>
                         (let u = ((a * 16 + b) * 16 + c) * 16 + d in
                          if u < 256 then
                            map_option (\<lambda>(s, r). (char_of u # s, r)) (parse_chars cs2)
                          else None)
                     | _ \<Rightarrow> None)
                | _ \<Rightarrow> None)
             else
               (case unescape e of
                  None \<Rightarrow> None
                | Some x \<Rightarrow> map_option (\<lambda>(s, r). (x # s, r)) (parse_chars cs1)))
      else if (of_char c :: nat) < 32 then None
      else map_option (\<lambda>(s, r). (c # s, r)) (parse_chars cs))"

definition parse_number :: "string \<Rightarrow> (rat \<times> string) option" where
  "parse_number cs =
     (let neg = (take 1 cs = ''-'');
          cs1 = (if neg then drop 1 cs else cs);
          ip = (if take 1 cs1 = ''0'' then ''0'' else takeWhile is_digit cs1);
          cs2 = drop (length ip) cs1;
          has_frac = (take 1 cs2 = ''.'');
          fp = (if has_frac then takeWhile is_digit (drop 1 cs2) else []);
          cs3 = (if has_frac then drop (1 + length fp) cs2 else cs2);
          has_exp = (take 1 cs3 = ''e'' \<or> take 1 cs3 = ''E'');
          cs4 = (if has_exp then drop 1 cs3 else cs3);
          eneg = (has_exp \<and> take 1 cs4 = ''-'');
          cs5 = (if has_exp \<and> (take 1 cs4 = ''-'' \<or> take 1 cs4 = ''+'') then drop 1 cs4 else cs4);
          ep = (if has_exp then takeWhile is_digit cs5 else []);
          cs6 = drop (length ep) cs5;
          m = rat_of_nat (digits_val (ip @ fp));
          e = (if eneg then - int (digits_val ep) else int (digits_val ep)) - int (length fp);
          r = (if 0 \<le> e then m * 10 ^ nat e else m / 10 ^ nat (- e))
      in if ip = [] \<or> (has_frac \<and> fp = []) \<or> (has_exp \<and> ep = []) then None
         else Some (if neg then - r else r, cs6))"

text \<open>
  A value, the elements of an array after \<open>[\<close>, the members of an object after \<open>{\<close>.
  The comparisons of lengths in \<open>parse_elements\<close> and \<open>parse_members\<close> make the recursion
  terminate on the face of it; they never fail (\<open>parse_elements_unguarded\<close>,
  \<open>parse_members_unguarded\<close>).
\<close>

function (sequential) parse_value :: "string \<Rightarrow> (json \<times> string) option"
  and parse_elements :: "json list \<Rightarrow> string \<Rightarrow> (json \<times> string) option"
  and parse_members :: "(string \<times> json) list \<Rightarrow> string \<Rightarrow> (json \<times> string) option"
where
  "parse_value cs =
     (case skip_ws cs of
        [] \<Rightarrow> None
      | c # r \<Rightarrow>
          if c = CHR ''{'' then
            (if take 1 (skip_ws r) = ''}'' then Some (JObject [], drop 1 (skip_ws r))
             else parse_members [] (skip_ws r))
          else if c = CHR ''['' then
            (if take 1 (skip_ws r) = '']'' then Some (JArray [], drop 1 (skip_ws r))
             else parse_elements [] (skip_ws r))
          else if c = CHR 0x22 then map_option (\<lambda>(s, r'). (JString s, r')) (parse_chars r)
          else if take 4 (c # r) = ''true'' then Some (JBool True, drop 4 (c # r))
          else if take 5 (c # r) = ''false'' then Some (JBool False, drop 5 (c # r))
          else if take 4 (c # r) = ''null'' then Some (JNull, drop 4 (c # r))
          else map_option (\<lambda>(n, r'). (JNumber n, r')) (parse_number (c # r)))"
| "parse_elements acc cs =
     (case parse_value cs of
        None \<Rightarrow> None
      | Some (v, r) \<Rightarrow>
          if length r < length cs then
            (case skip_ws r of
               [] \<Rightarrow> None
             | c # r' \<Rightarrow>
                 if c = CHR '','' then parse_elements (acc @ [v]) r'
                 else if c = CHR '']'' then Some (JArray (acc @ [v]), r')
                 else None)
          else None)"
| "parse_members acc cs =
     (case cs of
        [] \<Rightarrow> None
      | q # r \<Rightarrow>
          if q = CHR 0x22 then
            (case parse_chars r of
               None \<Rightarrow> None
             | Some (k, r1) \<Rightarrow>
                 (case skip_ws r1 of
                    [] \<Rightarrow> None
                  | c # r2 \<Rightarrow>
                      if c = CHR '':'' \<and> length r2 < length cs then
                        (case parse_value r2 of
                           None \<Rightarrow> None
                         | Some (v, r3) \<Rightarrow>
                             if length r3 < length r2 then
                               (case skip_ws r3 of
                                  [] \<Rightarrow> None
                                | d # r4 \<Rightarrow>
                                    if d = CHR '','' then
                                      parse_members (AList.update k v acc) (skip_ws r4)
                                    else if d = CHR ''}'' then
                                      Some (JObject (AList.update k v acc), r4)
                                    else None)
                             else None)
                      else None))
          else None)"
  by pat_completeness auto

termination
proof (relation "measures
    [\<lambda>x. case x of Inl cs \<Rightarrow> length cs | Inr (Inl (_, cs)) \<Rightarrow> length cs
          | Inr (Inr (_, cs)) \<Rightarrow> length cs,
     \<lambda>x. case x of Inl _ \<Rightarrow> 0 | Inr _ \<Rightarrow> 1]", goal_cases)
  case 1
  show ?case by simp
next
  case (2 cs c r)
  with length_dropWhile_le [of is_ws cs] length_dropWhile_le [of is_ws r]
  show ?case by (simp add: skip_ws_def)
next
  case (3 cs c r)
  with length_dropWhile_le [of is_ws cs] length_dropWhile_le [of is_ws r]
  show ?case by (simp add: skip_ws_def)
next
  case 4
  show ?case by simp
next
  case (5 acc cs x v r c r')
  with length_dropWhile_le [of is_ws r] show ?case by (simp add: skip_ws_def)
next
  case (6 acc cs q r x k r1 c r2)
  then show ?case by simp
next
  case (7 acc cs q r x k r1 c r2 y v r3 d r4)
  with length_dropWhile_le [of is_ws r3] length_dropWhile_le [of is_ws r4]
  show ?case by (simp add: skip_ws_def)
qed

definition JSON_parse :: "string \<Rightarrow> json option" where
  "JSON_parse text =
     (case parse_value text of
        None \<Rightarrow> None
      | Some (v, r) \<Rightarrow> if skip_ws r = [] then Some v else None)"

text \<open>
  \<open>String.prototype.trim\<close> removes white space and line terminators at both ends; below
  \<open>U+0100\<close> these are tab, line feed, vertical tab, form feed, carriage return, space and
  the no-break space.
\<close>

definition is_space :: "char \<Rightarrow> bool" where
  "is_space c = (c \<in> set [CHR 0x09, CHR 0x0A, CHR 0x0B, CHR 0x0C, CHR 0x0D, CHR 0x20, CHR 0xA0])"

definition trim :: "string \<Rightarrow> string" where
  "trim s = rev (dropWhile is_space (rev (dropWhile is_space s)))"

section \<open>Promises and child processes\<close>

text \<open>
  A promise is pending until it is settled, and settling a settled promise does nothing.
  The two executors call \<open>resolve\<close> only; a promise is rejected when its executor, or the
  body of the \<open>async\<close> function, throws.
\<close>

datatype 'a promise = Pending | Resolved 'a | Rejected error

definition resolve :: "'a \<Rightarrow> 'a promise \<Rightarrow> 'a promise" where
  "resolve v p = (case p of Pending \<Rightarrow> Resolved v | _ \<Rightarrow> p)"

text \<open>
  What a child process emits, in order: a chunk on its standard output or its standard
  error (already decoded by \<open>data.toString()\<close>), \<open>close\<close> with the exit code (\<open>None\<close> is
  \<open>null\<close>, a child ended by a signal), \<open>error\<close> with the message of the error.
\<close>

datatype event = StdoutData string | StderrData string | Close "int option" | ErrorEvent string

datatype stdio_mode = Inherit | Pipe

datatype stream = Stdin | Stdout | Stderr

datatype listener = OnData stream | OnClose | OnError

fun listener_of :: "event \<Rightarrow> listener" where
  "listener_of (StdoutData _) = OnData Stdout"
| "listener_of (StderrData _) = OnData Stderr"
| "listener_of (Close _) = OnClose"
| "listener_of (ErrorEvent _) = OnError"

text \<open>An event runs the handler only when a listener for it has been attached.\<close>

definition emit :: "listener list \<Rightarrow> (event \<Rightarrow> 's \<Rightarrow> 's) \<Rightarrow> 's \<Rightarrow> event \<Rightarrow> 's" where
  "emit ls handler st ev = (if listener_of ev \<in> set ls then handler ev st else st)"

text \<open>
  The platform's \<open>spawn(command, args, {stdio})\<close> is a parameter: it throws at once (on
  arguments it refuses), or returns a child with the streams its \<open>stdio\<close> option asks
  for, whose life is the list of the events it emits.  A child that could not be
  started emits \<open>error\<close>.
\<close>

datatype spawn_result = Throws error | Child "event list"

type_synonym spawn_fn = "cfgval \<Rightarrow> cfgval list \<Rightarrow> stdio_mode list \<Rightarrow> spawn_result"

text \<open>The streams of a \<open>stdio\<close> option that are pipes, and those with no \<open>data\<close> listener.\<close>

definition piped :: "stdio_mode list \<Rightarrow> stream list" where
  "piped stdio = map fst (filter (\<lambda>(s, m). m = Pipe) (zip [Stdin, Stdout, Stderr] stdio))"

definition undrained :: "stdio_mode list \<Rightarrow> listener list \<Rightarrow> stream list" where
  "undrained stdio ls = filter (\<lambda>s. s \<noteq> Stdin \<and> OnData s \<notin> set ls) (piped stdio)"

section \<open>transcribe\<close>

text \<open>The object \<open>{ success: false, error: msg }\<close>.\<close>

definition Failure :: "string \<Rightarrow> json" where
  "Failure msg = JObject [(''success'', JBool False), (''error'', JString msg)]"

text \<open>The exit code in a template literal: \<open>null\<close>, or an integer in its decimal digits.\<close>

definition code_str :: "int option \<Rightarrow> string" where
  "code_str code = (case code of None \<Rightarrow> ''null'' | Some n \<Rightarrow> dec_int n)"

record transcribe_state =
  stdout :: string
  stderr :: string
  promise :: "json promise"

definition on_close :: "(string \<Rightarrow> json option) \<Rightarrow> int option \<Rightarrow> transcribe_state \<Rightarrow> transcribe_state" where
  "on_close parse code st =
     (if code \<noteq> Some 0 \<and> stdout st = [] then
        st\<lparr>promise :=
             resolve (Failure (if stderr st \<noteq> [] then stderr st
                               else ''Process exited with code '' @ code_str code))
               (promise st)\<rparr>
      else
        (case parse (trim (stdout st)) of
           Some result \<Rightarrow> st\<lparr>promise := resolve result (promise st)\<rparr>
         | None \<Rightarrow>
             st\<lparr>promise :=
                  resolve (Failure (''Failed to parse output: '' @ stdout st)) (promise st)\<rparr>))"

fun transcribe_handler :: "(string \<Rightarrow> json option) \<Rightarrow> event \<Rightarrow> transcribe_state \<Rightarrow> transcribe_state" where
  "transcribe_handler parse (StdoutData d) st = st\<lparr>stdout := stdout st @ d\<rparr>"
| "transcribe_handler parse (StderrData d) st = st\<lparr>stderr := stderr st @ d\<rparr>"
| "transcribe_handler parse (Close code) st = on_close parse code st"
| "transcribe_handler parse (ErrorEvent msg) st =
     st\<lparr>promise := resolve (Failure (''Failed to start STT process: '' @ msg)) (promise st)\<rparr>"

definition transcribe_stdio :: "stdio_mode list" where
  "transcribe_stdio = [Inherit, Pipe, Pipe]"

definition transcribe_listeners :: "listener list" where
  "transcribe_listeners = [OnData Stdout, OnData Stderr, OnClose, OnError]"

text \<open>The executor of the promise, once \<open>spawn\<close> has returned a child with these events.\<close>

definition transcribe_child :: "(string \<Rightarrow> json option) \<Rightarrow> event list \<Rightarrow> transcribe_state" where
  "transcribe_child parse events =
     foldl (emit transcribe_listeners (transcribe_handler parse))
       \<lparr>stdout = [], stderr = [], promise = Pending\<rparr> events"

text \<open>
  \<open>transcribe\<close> is an \<open>async\<close> function: an exception thrown in its body, or in the executor
  of its promise, rejects the promise it returns.
\<close>

definition transcribe ::
  "(string \<Rightarrow> json option) \<Rightarrow> (number \<Rightarrow> string) \<Rightarrow> spawn_fn \<Rightarrow> string \<Rightarrow> config \<Rightarrow>
     json promise" where
  "transcribe parse num_str spawn bundled config =
     (let merged = mergedConfig config in
      case build_args num_str bundled merged of
        Inl e \<Rightarrow> Rejected e
      | Inr args \<Rightarrow>
          (case spawn (get merged ''pythonPath'') args transcribe_stdio of
             Throws e \<Rightarrow> Rejected e
           | Child events \<Rightarrow> promise (transcribe_child parse events)))"

text \<open>The interface \<open>SttResult\<close>: \<open>success\<close> a boolean, the other four fields strings when present.\<close>

definition optional_string :: "(string \<times> json) list \<Rightarrow> string \<Rightarrow> bool" where
  "optional_string ps k =
     (case map_of ps k of None \<Rightarrow> True | Some (JString _) \<Rightarrow> True | Some _ \<Rightarrow> False)"

definition SttResult :: "json \<Rightarrow> bool" where
  "SttResult v =
     (case v of
        JObject ps \<Rightarrow>
          (case map_of ps ''success'' of Some (JBool _) \<Rightarrow> True | _ \<Rightarrow> False) \<and>
          optional_string ps ''text'' \<and> optional_string ps ''error'' \<and>
          optional_string ps ''backend'' \<and> optional_string ps ''model''
      | _ \<Rightarrow> False)"

text \<open>The tag of a result is its field \<open>success\<close>: \<open>true\<close> for a success, \<open>false\<close> for a failure.\<close>

definition success_tag :: "json \<Rightarrow> bool option" where
  "success_tag v =
     (case v of
        JObject ps \<Rightarrow> (case map_of ps ''success'' of Some (JBool b) \<Rightarrow> Some b | _ \<Rightarrow> None)
      | _ \<Rightarrow> None)"

definition is_Success :: "json \<Rightarrow> bool" where
  "is_Success v = (SttResult v \<and> success_tag v = Some True)"

definition is_Failure :: "json \<Rightarrow> bool" where
  "is_Failure v = (SttResult v \<and> success_tag v = Some False)"

section \<open>listBackends\<close>

text \<open>
  Property read \<open>v.k\<close> on a parsed value: a \<open>TypeError\<close> on \<open>null\<close>, the own property of an
  object, \<open>undefined\<close> (\<open>None\<close>) where there is none.  The only key read is
  \<open>available_backends\<close>, which no array, string, number or boolean has.
\<close>

fun prop_read :: "json \<Rightarrow> string \<Rightarrow> error + json option" where
  "prop_read JNull k = Inl (TypeError ''Cannot read properties of null'')"
| "prop_read (JObject ps) k = Inr (map_of ps k)"
| "prop_read _ k = Inr None"

text \<open>Truthiness of a parsed value, and \<open>v || []\<close> on the result of a property read.\<close>

fun truthy_json :: "json \<Rightarrow> bool" where
  "truthy_json JNull = False"
| "truthy_json (JBool b) = b"
| "truthy_json (JNumber n) = (n \<noteq> 0)"
| "truthy_json (JString s) = (s \<noteq> [])"
| "truthy_json (JArray _) = True"
| "truthy_json (JObject _) = True"

fun or_empty :: "json option \<Rightarrow> json" where
  "or_empty None = JArray []"
| "or_empty (Some v) = (if truthy_json v then v else JArray [])"

record probe_state =
  probe_stdout :: string
  probe_promise :: "json promise"

definition probe_on_close :: "(string \<Rightarrow> json option) \<Rightarrow> probe_state \<Rightarrow> probe_state" where
  "probe_on_close parse st =
     (case parse (trim (probe_stdout st)) of
        None \<Rightarrow> st\<lparr>probe_promise := resolve (JArray []) (probe_promise st)\<rparr>
      | Some result \<Rightarrow>
          (case prop_read result ''available_backends'' of
             Inl e \<Rightarrow> st\<lparr>probe_promise := resolve (JArray []) (probe_promise st)\<rparr>
           | Inr v \<Rightarrow>
               st\<lparr>probe_promise := resolve (or_empty v) (probe_promise st)\<rparr>))"

fun listBackends_handler :: "(string \<Rightarrow> json option) \<Rightarrow> event \<Rightarrow> probe_state \<Rightarrow> probe_state" where
  "listBackends_handler parse (StdoutData d) st = st\<lparr>probe_stdout := probe_stdout st @ d\<rparr>"
| "listBackends_handler parse (Close code) st = probe_on_close parse st"
| "listBackends_handler parse (ErrorEvent msg) st =
     st\<lparr>probe_promise := resolve (JArray []) (probe_promise st)\<rparr>"
| "listBackends_handler parse (StderrData d) st = st"

definition listBackends_stdio :: "stdio_mode list" where
  "listBackends_stdio = [Inherit, Pipe, Pipe]"

definition listBackends_listeners :: "listener list" where
  "listBackends_listeners = [OnData Stdout, OnClose, OnError]"

definition listBackends_child :: "(string \<Rightarrow> json option) \<Rightarrow> event list \<Rightarrow> probe_state" where
  "listBackends_child parse events =
     foldl (emit listBackends_listeners (listBackends_handler parse))
       \<lparr>probe_stdout = [], probe_promise = Pending\<rparr> events"

text \<open>\<open>listBackends(pythonPath = "python3")\<close>: the default stands in for \<open>undefined\<close>.\<close>

definition listBackends :: "(string \<Rightarrow> json option) \<Rightarrow> spawn_fn \<Rightarrow> string \<Rightarrow> cfgval \<Rightarrow> json promise" where
  "listBackends parse spawn bundled pythonPath =
     (case spawn (if pythonPath = Undefined then Str ''python3'' else pythonPath)
             [Str bundled, Str ''--list-backends''] listBackends_stdio of
        Throws e \<Rightarrow> Rejected e
      | Child events \<Rightarrow> probe_promise (listBackends_child parse events))"

section \<open>Traces\<close>

text \<open>The text a list of events carries on each stream.\<close>

fun stdout_of :: "event list \<Rightarrow> string" where
  "stdout_of [] = []"
| "stdout_of (StdoutData d # evs) = d @ stdout_of evs"
| "stdout_of (_ # evs) = stdout_of evs"

fun stderr_of :: "event list \<Rightarrow> string" where
  "stderr_of [] = []"
| "stderr_of (StderrData d # evs) = d @ stderr_of evs"
| "stderr_of (_ # evs) = stderr_of evs"

fun is_data :: "event \<Rightarrow> bool" where
  "is_data (StdoutData _) = True"
| "is_data (StderrData _) = True"
| "is_data _ = False"

declare dec_nat.simps [simp del]
declare parse_value.simps [simp del]
declare parse_elements.simps [simp del]
declare parse_members.simps [simp del]

section \<open>The parser consumes its input\<close>

text \<open>
  Each parsing function that succeeds returns a rest that is strictly shorter than its
  input.
\<close>

lemma map_option_pair_Some:
  "map_option (\<lambda>(s, r). (f s, r)) p = Some (s', r') \<Longrightarrow> \<exists>s. p = Some (s, r')"
  by (cases p) auto

lemma parse_chars_step:
  assumes "parse_chars (c # cs0) = Some (s, r)"
  shows "r = cs0 \<or> (\<exists>s'. parse_chars cs0 = Some (s', r)) \<or>
         (\<exists>e cs1 s'. cs0 = e # cs1 \<and> parse_chars cs1 = Some (s', r)) \<or>
         (\<exists>e h1 h2 h3 h4 cs2 s'. cs0 = e # h1 # h2 # h3 # h4 # cs2 \<and>
            parse_chars cs2 = Some (s', r))"
proof (cases "c = CHR 0x22")
  case True
  with assms show ?thesis by simp
next
  case nq: False
  show ?thesis
  proof (cases "c = CHR 0x5C")
    case False
    with nq assms have "\<exists>s'. parse_chars cs0 = Some (s', r)"
      by (auto split: if_splits dest: map_option_pair_Some)
    then show ?thesis by blast
  next
    case bs: True
    show ?thesis
    proof (cases cs0)
      case Nil
      with nq bs assms show ?thesis by simp
    next
      case (Cons e cs1)
      show ?thesis
      proof (cases "e = CHR ''u''")
        case False
        with nq bs Cons assms have "\<exists>s'. parse_chars cs1 = Some (s', r)"
          by (auto split: option.splits dest: map_option_pair_Some)
        with Cons show ?thesis by blast
      next
        case u: True
        from nq bs Cons u assms obtain h1 h2 h3 h4 cs2
          where c1: "cs1 = h1 # h2 # h3 # h4 # cs2"
          by (simp split: list.splits)
        with nq bs Cons u assms have "\<exists>s'. parse_chars cs2 = Some (s', r)"
          by (simp add: Let_def split: option.splits if_splits)
            (metis map_option_pair_Some)
        with Cons c1 show ?thesis by blast
      qed
    qed
  qed
qed

lemma parse_chars_shorter: "parse_chars cs = Some (s, r) \<Longrightarrow> length r < length cs"
proof (induction "length cs" arbitrary: cs s r rule: less_induct)
  case less
  show ?case
  proof (cases cs)
    case Nil
    with less.prems show ?thesis by simp
  next
    case (Cons c cs0)
    from parse_chars_step [OF less.prems [unfolded Cons]]
    consider "r = cs0"
      | s' where "parse_chars cs0 = Some (s', r)"
      | e cs1 s' where "cs0 = e # cs1" "parse_chars cs1 = Some (s', r)"
      | e h1 h2 h3 h4 cs2 s' where "cs0 = e # h1 # h2 # h3 # h4 # cs2"
          "parse_chars cs2 = Some (s', r)"
      by blast
    then show ?thesis
    proof cases
      case 1
      with Cons show ?thesis by simp
    next
      case 2
      from less.hyps [OF _ 2] Cons show ?thesis by simp
    next
      case 3
      from less.hyps [OF _ 3(2)] Cons 3(1) show ?thesis by simp
    next
      case 4
      from less.hyps [OF _ 4(2)] Cons 4(1) show ?thesis by simp
    qed
  qed
qed

lemma parse_number_shorter:
  assumes "parse_number cs = Some (n, r)"
  shows "length r < length cs"
proof -
  define cs1 where "cs1 = (if take 1 cs = ''-'' then drop 1 cs else cs)"
  define ip where "ip = (if take 1 cs1 = ''0'' then ''0'' else takeWhile is_digit cs1)"
  define cs2 where "cs2 = drop (length ip) cs1"
  define fp where "fp = (if take 1 cs2 = ''.'' then takeWhile is_digit (drop 1 cs2) else [])"
  define cs3 where "cs3 = (if take 1 cs2 = ''.'' then drop (1 + length fp) cs2 else cs2)"
  define has_exp where "has_exp = (take 1 cs3 = ''e'' \<or> take 1 cs3 = ''E'')"
  define cs4 where "cs4 = (if has_exp then drop 1 cs3 else cs3)"
  define cs5 where "cs5 = (if has_exp \<and> (take 1 cs4 = ''-'' \<or> take 1 cs4 = ''+'') then drop 1 cs4 else cs4)"
  define ep where "ep = (if has_exp then takeWhile is_digit cs5 else [])"
  define cs6 where "cs6 = drop (length ep) cs5"
  note defs = cs1_def ip_def cs2_def fp_def cs3_def has_exp_def cs4_def cs5_def ep_def cs6_def
  from assms have "ip \<noteq> [] \<and> r = cs6"
    unfolding parse_number_def Let_def defs [symmetric]
    by (simp split: if_splits)
  then have ne: "ip \<noteq> []" and r: "r = cs6" by simp_all
  have l1: "length cs1 \<le> length cs" by (simp add: cs1_def)
  have lip: "length ip \<le> length cs1"
    by (cases cs1) (simp_all add: ip_def length_takeWhile_le)
  from ne lip have l2: "length cs2 < length cs1"
    by (cases ip) (simp_all add: cs2_def)
  have l3: "length cs3 \<le> length cs2" by (simp add: cs3_def)
  have l4: "length cs4 \<le> length cs3" by (simp add: cs4_def)
  have l5: "length cs5 \<le> length cs4" by (simp add: cs5_def)
  have l6: "length cs6 \<le> length cs5" by (simp add: cs6_def)
  from l1 l2 l3 l4 l5 l6 r show ?thesis by simp
qed

lemma length_skip_ws: "length (skip_ws cs) \<le> length cs"
  by (simp add: skip_ws_def length_dropWhile_le)

lemma parse_value_step:
  assumes "parse_value cs = Some (v, r)"
  shows "\<exists>c rest. skip_ws cs = c # rest \<and>
           (length r < length (c # rest) \<or>
            parse_members [] (skip_ws rest) = Some (v, r) \<or>
            parse_elements [] (skip_ws rest) = Some (v, r))"
proof (cases "skip_ws cs")
  case Nil
  with assms show ?thesis by (simp add: parse_value.simps [of cs])
next
  case (Cons c rest)
  note l = length_skip_ws [of rest]
  from assms Cons have a:
    "(if c = CHR ''{'' then
        (if take 1 (skip_ws rest) = ''}'' then Some (JObject [], drop 1 (skip_ws rest))
         else parse_members [] (skip_ws rest))
      else if c = CHR ''['' then
        (if take 1 (skip_ws rest) = '']'' then Some (JArray [], drop 1 (skip_ws rest))
         else parse_elements [] (skip_ws rest))
      else if c = CHR 0x22 then map_option (\<lambda>(s, r'). (JString s, r')) (parse_chars rest)
      else if take 4 (c # rest) = ''true'' then Some (JBool True, drop 4 (c # rest))
      else if take 5 (c # rest) = ''false'' then Some (JBool False, drop 5 (c # rest))
      else if take 4 (c # rest) = ''null'' then Some (JNull, drop 4 (c # rest))
      else map_option (\<lambda>(n, r'). (JNumber n, r')) (parse_number (c # rest))) = Some (v, r)"
    by (simp add: parse_value.simps [of cs])
  have "length r < length (c # rest) \<or>
        parse_members [] (skip_ws rest) = Some (v, r) \<or>
        parse_elements [] (skip_ws rest) = Some (v, r)"
  proof (cases "c = CHR ''{''")
    case True
    with a l show ?thesis by (auto split: if_splits)
  next
    case nb: False
    show ?thesis
    proof (cases "c = CHR ''[''")
      case True
      with a l nb show ?thesis by (auto split: if_splits)
    next
      case nk: False
      show ?thesis
      proof (cases "c = CHR 0x22")
        case True
        with a nb nk obtain s where "parse_chars rest = Some (s, r)"
          by (auto dest: map_option_pair_Some)
        from parse_chars_shorter [OF this] show ?thesis by simp
      next
        case ns: False
        show ?thesis
        proof (cases "take 4 (c # rest) = ''true'' \<or> take 5 (c # rest) = ''false'' \<or>
            take 4 (c # rest) = ''null''")
          case True
          with a nb nk ns show ?thesis by (auto split: if_splits)
        next
          case False
          with a nb nk ns obtain n where "parse_number (c # rest) = Some (n, r)"
            by (auto dest: map_option_pair_Some)
          from parse_number_shorter [OF this] show ?thesis by simp
        qed
      qed
    qed
  qed
  with Cons show ?thesis by blast
qed

lemma parse_elements_step:
  assumes "parse_elements acc cs = Some (v, r)"
  shows "\<exists>v' r' c r''. parse_value cs = Some (v', r') \<and> length r' < length cs \<and>
           skip_ws r' = c # r'' \<and>
           (r = r'' \<or> parse_elements (acc @ [v']) r'' = Some (v, r))"
  using assms
  by (simp add: parse_elements.simps [of acc cs] split: option.splits prod.splits if_splits
      list.splits)

lemma parse_members_step:
  assumes "parse_members acc cs = Some (v, r)"
  shows "\<exists>k v' r2 r3 d r4. length r2 < length cs \<and> parse_value r2 = Some (v', r3) \<and>
           length r3 < length r2 \<and> skip_ws r3 = d # r4 \<and>
           (r = r4 \<or> parse_members (AList.update k v' acc) (skip_ws r4) = Some (v, r))"
  using assms
  by (simp add: parse_members.simps [of acc cs] split: option.splits prod.splits if_splits
      list.splits) blast+

lemma parse_shorter:
  "(parse_value cs = Some (v, r) \<longrightarrow> length r < length cs) \<and>
   (parse_elements es cs = Some (v, r) \<longrightarrow> length r < length cs) \<and>
   (parse_members ms cs = Some (v, r) \<longrightarrow> length r < length cs)"
proof (induction "length cs" arbitrary: cs v r es ms rule: less_induct)
  case less
  have ihe: "length r' < length cs'"
    if "parse_elements es' cs' = Some (v', r')" "length cs' < length cs" for es' cs' v' r'
    using less.hyps [OF that(2), of v' r' es'] that(1) by blast
  have ihm: "length r' < length cs'"
    if "parse_members ms' cs' = Some (v', r')" "length cs' < length cs" for ms' cs' v' r'
    using less.hyps [OF that(2), of v' r' _ ms'] that(1) by blast
  have 1: "length r < length cs" if p: "parse_value cs = Some (v, r)"
  proof -
    from parse_value_step [OF p] obtain c rest where s: "skip_ws cs = c # rest"
      and d: "length r < length (c # rest) \<or>
            parse_members [] (skip_ws rest) = Some (v, r) \<or>
            parse_elements [] (skip_ws rest) = Some (v, r)"
      by blast
    from s length_skip_ws [of cs] have lc: "length (c # rest) \<le> length cs" by simp
    with length_skip_ws [of rest] have lr: "length (skip_ws rest) < length cs" by simp
    from d show ?thesis
    proof (elim disjE)
      assume "length r < length (c # rest)"
      with lc show ?thesis by simp
    next
      assume "parse_members [] (skip_ws rest) = Some (v, r)"
      from ihm [OF this lr] lr show ?thesis by simp
    next
      assume "parse_elements [] (skip_ws rest) = Some (v, r)"
      from ihe [OF this lr] lr show ?thesis by simp
    qed
  qed
  have 2: "length r < length cs" if p: "parse_elements es cs = Some (v, r)"
  proof -
    from parse_elements_step [OF p] obtain v' r' c r''
      where l: "length r' < length cs" and s: "skip_ws r' = c # r''"
        and d: "r = r'' \<or> parse_elements (es @ [v']) r'' = Some (v, r)"
      by blast
    from s length_skip_ws [of r'] l have lr: "length r'' < length cs" by simp
    from d show ?thesis
    proof
      assume "r = r''"
      with lr show ?thesis by simp
    next
      assume "parse_elements (es @ [v']) r'' = Some (v, r)"
      from ihe [OF this lr] lr show ?thesis by simp
    qed
  qed
  have 3: "length r < length cs" if p: "parse_members ms cs = Some (v, r)"
  proof -
    from parse_members_step [OF p] obtain k v' r2 r3 d r4
      where l: "length (r2::string) < length cs" "length r3 < length r2"
        and s: "skip_ws r3 = d # r4"
        and alt: "r = r4 \<or> parse_members (AList.update k v' ms) (skip_ws r4) = Some (v, r)"
      by blast
    from s length_skip_ws [of r3] l have lr: "length r4 < length cs" by simp
    with length_skip_ws [of r4] have lr': "length (skip_ws r4) < length cs" by simp
    from alt show ?thesis
    proof
      assume "r = r4"
      with lr show ?thesis by simp
    next
      assume "parse_members (AList.update k v' ms) (skip_ws r4) = Some (v, r)"
      from ihm [OF this lr'] lr' show ?thesis by simp
    qed
  qed
  from 1 2 3 show ?case by blast
qed

lemma parse_value_shorter: "parse_value cs = Some (v, r) \<Longrightarrow> length r < length cs"
  using parse_shorter [of cs v r] by blast

text \<open>
  So the comparisons of lengths in \<open>parse_elements\<close> and \<open>parse_members\<close>, which make
  the recursion visibly terminate, never fail: the two functions satisfy the equations
  without them.
\<close>

lemma parse_elements_unguarded:
  "parse_elements acc cs =
     (case parse_value cs of
        None \<Rightarrow> None
      | Some (v, r) \<Rightarrow>
          (case skip_ws r of
             [] \<Rightarrow> None
           | c # r' \<Rightarrow>
               if c = CHR '','' then parse_elements (acc @ [v]) r'
               else if c = CHR '']'' then Some (JArray (acc @ [v]), r')
               else None))"
proof (cases "parse_value cs")
  case None
  then show ?thesis by (simp add: parse_elements.simps [of acc cs])
next
  case (Some p)
  obtain v r where p: "p = (v, r)" by (cases p)
  from Some p parse_value_shorter [of cs v r] have "length r < length cs" by simp
  with Some p show ?thesis by (simp add: parse_elements.simps [of acc cs])
qed

lemma parse_members_unguarded:
  "parse_members acc cs =
     (case cs of
        [] \<Rightarrow> None
      | q # r \<Rightarrow>
          if q = CHR 0x22 then
            (case parse_chars r of
               None \<Rightarrow> None
             | Some (k, r1) \<Rightarrow>
                 (case skip_ws r1 of
                    [] \<Rightarrow> None
                  | c # r2 \<Rightarrow>
                      if c = CHR '':'' then
                        (case parse_value r2 of
                           None \<Rightarrow> None
                         | Some (v, r3) \<Rightarrow>
                             (case skip_ws r3 of
                                [] \<Rightarrow> None
                              | d # r4 \<Rightarrow>
                                  if d = CHR '','' then
                                    parse_members (AList.update k v acc) (skip_ws r4)
                                  else if d = CHR ''}'' then
                                    Some (JObject (AList.update k v acc), r4)
                                  else None))
                      else None))
          else None)"
proof -
  have g1: "length r2 < Suc (length r)"
    if "parse_chars r = Some (k, r1)" "skip_ws r1 = c # r2" for r k r1 c r2
    using parse_chars_shorter [OF that(1)] length_skip_ws [of r1] that(2) by simp
  have g2: "length r3 < length r2" if "parse_value r2 = Some (v, r3)" for r2 v r3
    using parse_value_shorter [OF that] .
  show ?thesis
    by (auto simp: parse_members.simps [of acc cs] g1 g2
        split: list.splits option.splits prod.splits)
qed

section \<open>The configuration merge\<close>

lemma map_of_spread_rev: "map_of (spread a b) = map_of a ++ map_of (rev b)"
  unfolding spread_def
proof (induction b arbitrary: a)
  case Nil
  show ?case by simp
next
  case (Cons p b)
  obtain k v where p: "p = (k, v)" by (cases p)
  let ?f = "\<lambda>obj (k, v). AList.update k v obj"
  have "map_of (foldl ?f a (p # b)) = map_of (foldl ?f (AList.update k v a) b)"
    by (simp add: p)
  also have "\<dots> = map_of (AList.update k v a) ++ map_of (rev b)"
    by (rule Cons.IH)
  also have "\<dots> = (map_of a)(k \<mapsto> v) ++ map_of (rev b)"
    by (simp only: update_conv')
  also have "\<dots> = map_of a ++ map_of (rev (p # b))"
    by (rule ext) (simp add: p map_add_def split: option.splits)
  finally show ?case .
qed

lemma map_of_rev_distinct: "distinct (map fst b) \<Longrightarrow> map_of (rev b) = map_of b"
  by (simp add: map_of_inject_set distinct_rev rev_map[symmetric])

lemma get_mergedConfig:
  "distinct (map fst config) \<Longrightarrow>
   get (mergedConfig config) k =
     (case map_of config k of None \<Rightarrow> get DEFAULT_CONFIG k | Some v \<Rightarrow> v)"
  by (simp add: get_def mergedConfig_def map_of_spread_rev map_of_rev_distinct map_add_def
      split: option.splits)

lemma get_mergedConfig_present:
  "distinct (map fst config) \<Longrightarrow> (k, v) \<in> set config \<Longrightarrow> get (mergedConfig config) k = v"
  by (simp add: get_mergedConfig)

lemma get_mergedConfig_absent:
  assumes "k \<notin> fst ` set config"
  shows "get (mergedConfig config) k = get DEFAULT_CONFIG k"
proof -
  from assms have "map_of (rev config) k = None"
    by (simp add: map_of_eq_None_iff)
  then show ?thesis
    by (simp add: get_def mergedConfig_def map_of_spread_rev map_add_def)
qed

lemma mergedConfig_model_base:
  "mergedConfig [(''model'', Str ''base'')] =
     [(''backend'', Str ''auto''), (''model'', Str ''base''), (''language'', Str ''en''),
      (''maxDuration'', Num (Finite 30)), (''pythonPath'', Str ''python3''), (''scriptPath'', Str '''')]"
  by (simp add: mergedConfig_def spread_def DEFAULT_CONFIG_def)

text \<open>
  C7.  The merge of \<open>transcribe\<close> is a shallow override: for a caller's configuration (an
  object, so its keys are distinct) every field it supplies has the supplied value in
  the merged configuration, and every field it does not supply has the value of
  \<open>DEFAULT_CONFIG\<close>.  Supplying only \<open>{model: "base"}\<close> gives model \<open>base\<close>, backend
  \<open>auto\<close>, language \<open>en\<close>, maxDuration \<open>30\<close>, pythonPath \<open>python3\<close> and the empty
  scriptPath.
\<close>

theorem merge_shallow_override:
  assumes "distinct (map fst config)"
  shows "(\<forall>k v. (k, v) \<in> set config \<longrightarrow> get (mergedConfig config) k = v) \<and>
         (\<forall>k. k \<notin> fst ` set config \<longrightarrow> get (mergedConfig config) k = get DEFAULT_CONFIG k) \<and>
         mergedConfig [(''model'', Str ''base'')] =
           [(''backend'', Str ''auto''), (''model'', Str ''base''), (''language'', Str ''en''),
            (''maxDuration'', Num (Finite 30)), (''pythonPath'', Str ''python3''), (''scriptPath'', Str '''')]"
  using assms
  by (simp add: get_mergedConfig_present get_mergedConfig_absent mergedConfig_model_base)

theorem merge_shallow_override_witness:
  "distinct (map fst [(''model'', Str ''base''), (''language'', Undefined)]) \<and>
   get (mergedConfig [(''model'', Str ''base''), (''language'', Undefined)]) ''model'' = Str ''base'' \<and>
   get (mergedConfig [(''model'', Str ''base''), (''language'', Undefined)]) ''language'' = Undefined \<and>
   get (mergedConfig [(''model'', Str ''base''), (''language'', Undefined)]) ''maxDuration'' = Num (Finite 30)"
proof -
  let ?c = "[(''model'', Str ''base''), (''language'', Undefined)]"
  have d: "distinct (map fst ?c)" by simp
  have "get DEFAULT_CONFIG ''maxDuration'' = Num (Finite 30)"
    by (simp add: get_def DEFAULT_CONFIG_def)
  with merge_shallow_override [OF d] d show ?thesis by simp
qed

text \<open>
  C10.  A field that the caller's configuration holds with the value \<open>undefined\<close> is
  \<open>undefined\<close> in the merged configuration, while a field the caller's configuration does
  not hold keeps the default: \<open>{model: undefined}\<close> and \<open>{}\<close> merge to different
  configurations, with model \<open>undefined\<close> and model \<open>tiny\<close>.
\<close>

theorem explicit_undefined_overrides:
  "(distinct (map fst config) \<and> (k, Undefined) \<in> set config \<longrightarrow>
      get (mergedConfig config) k = Undefined) \<and>
   (k \<notin> fst ` set config \<longrightarrow> get (mergedConfig config) k = get DEFAULT_CONFIG k) \<and>
   get (mergedConfig [(''model'', Undefined)]) ''model'' = Undefined \<and>
   get (mergedConfig []) ''model'' = Str ''tiny'' \<and>
   mergedConfig [(''model'', Undefined)] \<noteq> mergedConfig []"
proof -
  have a: "get (mergedConfig [(''model'', Undefined)]) ''model'' = Undefined"
    by (simp add: get_mergedConfig_present)
  have "get (mergedConfig []) ''model'' = get DEFAULT_CONFIG ''model''"
    by (simp add: get_mergedConfig_absent)
  then have b: "get (mergedConfig []) ''model'' = Str ''tiny''"
    by (simp add: get_def DEFAULT_CONFIG_def)
  from a b have "mergedConfig [(''model'', Undefined)] \<noteq> mergedConfig []"
    by auto
  with a b show ?thesis
    by (simp add: get_mergedConfig_present get_mergedConfig_absent)
qed

theorem explicit_undefined_overrides_witness:
  "distinct (map fst [(''maxDuration'', Undefined)]) \<and>
   (''maxDuration'', Undefined) \<in> set [(''maxDuration'', Undefined)] \<and>
   ''backend'' \<notin> fst ` set [(''maxDuration'', Undefined)] \<and>
   get (mergedConfig [(''maxDuration'', Undefined)]) ''maxDuration'' = Undefined \<and>
   get (mergedConfig [(''maxDuration'', Undefined)]) ''backend'' = Str ''auto''"
proof -
  have "get DEFAULT_CONFIG ''backend'' = Str ''auto''"
    by (simp add: get_def DEFAULT_CONFIG_def)
  with explicit_undefined_overrides [of "[(''maxDuration'', Undefined)]" "''maxDuration''"]
    explicit_undefined_overrides [of "[(''maxDuration'', Undefined)]" "''backend''"]
  show ?thesis by simp
qed

section \<open>The argument list passed to the worker\<close>

lemma digit_nth:
  assumes "d < 10"
  shows "digit_val (''0123456789'' ! d) = d \<and> is_digit (''0123456789'' ! d)"
proof -
  from assms have "d \<in> {0, 1, 2, 3, 4, 5, 6, 7, 8, 9}" by auto
  then show ?thesis
    by (auto simp: digit_val_def is_digit_def)
qed

lemma digits_val_snoc: "digits_val (ds @ [c]) = 10 * digits_val ds + digit_val c"
  by (simp add: digits_val_def)

lemma dec_nat_decimal: "digits_val (dec_nat n) = n \<and> list_all is_digit (dec_nat n)"
proof (induction n rule: dec_nat.induct)
  case (1 n)
  show ?case
  proof (cases "n < 10")
    case True
    with digit_nth [of n] show ?thesis
      by (simp add: dec_nat.simps [of n] digits_val_def)
  next
    case False
    have "n mod 10 < 10" by simp
    with False "1" digit_nth [of "n mod 10"] show ?thesis
      by (simp add: dec_nat.simps [of n] digits_val_snoc)
  qed
qed

text \<open>A safe integer is printed in its decimal digits, after a minus sign when negative.\<close>

lemma Number_toString_safe_integer:
  assumes "\<bar>n\<bar> \<le> 2 ^ 53 - 1"
  shows "Number_toString (Finite (of_int n)) = dec_int n"
proof -
  from assms have "\<bar>(of_int n :: rat)\<bar> \<le> of_int (2 ^ 53 - 1)"
    by (simp only: of_int_abs [symmetric] of_int_le_iff)
  then show ?thesis by simp
qed

lemma Number_toString_30: "Number_toString (Finite 30) = ''30''"
proof -
  have "dec_int 30 = ''30''" by code_simp
  with Number_toString_safe_integer [of 30] show ?thesis by simp
qed

lemma build_args_cases:
  "build_args num_str bundled merged =
     (case get merged ''maxDuration'' of
        Undefined \<Rightarrow>
          Inl (TypeError ''Cannot read properties of undefined (reading 'toString')'')
      | Str s \<Rightarrow>
          Inr [scriptPath bundled merged,
               Str ''--backend'', get merged ''backend'',
               Str ''--model'', get merged ''model'',
               Str ''--language'', get merged ''language'',
               Str ''--duration'', Str s]
      | Num x \<Rightarrow>
          Inr [scriptPath bundled merged,
               Str ''--backend'', get merged ''backend'',
               Str ''--model'', get merged ''model'',
               Str ''--language'', get merged ''language'',
               Str ''--duration'', Str (num_str x)])"
  by (cases "get merged ''maxDuration''") (simp_all add: build_args_def)

lemma build_args_get_cong:
  assumes "\<And>k. get m' k = get m k"
  shows "build_args num_str bundled m' = build_args num_str bundled m"
  by (simp add: build_args_def scriptPath_def assms split: sum.splits)

lemma mergedConfig_key_order:
  assumes "distinct (map fst c)" and "distinct (map fst c')" and "set c' = set c"
  shows "get (mergedConfig c') k = get (mergedConfig c) k"
proof -
  from assms have "map_of c' = map_of c"
    by (simp add: map_of_inject_set)
  with assms show ?thesis by (simp add: get_mergedConfig)
qed

text \<open>
  C8 as stated fails: for the caller's configuration \<open>{maxDuration: undefined}\<close> the
  merged \<open>maxDuration\<close> is \<open>undefined\<close>, its \<open>toString()\<close> throws and no argument list is
  built; and for \<open>{maxDuration: NaN}\<close> the last argument is \<open>NaN\<close>, which is no decimal
  string.
\<close>

theorem no_args_for_undefined_maxDuration:
  "build_args Number_toString ''/pkg/scripts/stt.py'' (mergedConfig [(''maxDuration'', Undefined)]) =
     Inl (TypeError ''Cannot read properties of undefined (reading 'toString')'') \<and>
   build_args Number_toString ''/pkg/scripts/stt.py'' (mergedConfig [(''maxDuration'', Num NaN)]) =
     Inr [Str ''/pkg/scripts/stt.py'', Str ''--backend'', Str ''auto'', Str ''--model'', Str ''tiny'',
          Str ''--language'', Str ''en'', Str ''--duration'', Str ''NaN'']"
proof -
  have u: "get (mergedConfig [(''maxDuration'', Undefined)]) ''maxDuration'' = Undefined"
    by (simp add: get_mergedConfig_present)
  have n: "get (mergedConfig [(''maxDuration'', Num NaN)]) k =
           (if k = ''maxDuration'' then Num NaN else get DEFAULT_CONFIG k)" for k
    by (simp add: get_mergedConfig)
  have d: "get DEFAULT_CONFIG ''backend'' = Str ''auto''"
    "get DEFAULT_CONFIG ''model'' = Str ''tiny''"
    "get DEFAULT_CONFIG ''language'' = Str ''en''"
    "get DEFAULT_CONFIG ''scriptPath'' = Str ''''"
    by (simp_all add: get_def DEFAULT_CONFIG_def)
  show ?thesis
    by (simp add: build_args_cases u n d scriptPath_def)
qed

text \<open>
  C8, as amended.  \<open>transcribe\<close> builds no argument list when the merged \<open>maxDuration\<close> is
  \<open>undefined\<close>.  In every other case it builds, and passes to \<open>spawn\<close>, exactly the list:
  script path, \<open>--backend\<close>, backend, \<open>--model\<close>, model, \<open>--language\<close>, language,
  \<open>--duration\<close>, and what \<open>toString()\<close> gives for \<open>maxDuration\<close>, which for a number is what
  \<open>Number.prototype.toString\<close> prints.  The outcome is the same for two caller objects
  with the same properties written in a different key order.  For a safe integer
  \<open>Number.prototype.toString\<close> prints the decimal digits of the number, after a minus
  sign when it is negative.
\<close>

theorem transcribe_args_order:
  "build_args num_str bundled (mergedConfig config) =
     (case get (mergedConfig config) ''maxDuration'' of
        Undefined \<Rightarrow>
          Inl (TypeError ''Cannot read properties of undefined (reading 'toString')'')
      | Str s \<Rightarrow>
          Inr [scriptPath bundled (mergedConfig config),
               Str ''--backend'', get (mergedConfig config) ''backend'',
               Str ''--model'', get (mergedConfig config) ''model'',
               Str ''--language'', get (mergedConfig config) ''language'',
               Str ''--duration'', Str s]
      | Num x \<Rightarrow>
          Inr [scriptPath bundled (mergedConfig config),
               Str ''--backend'', get (mergedConfig config) ''backend'',
               Str ''--model'', get (mergedConfig config) ''model'',
               Str ''--language'', get (mergedConfig config) ''language'',
               Str ''--duration'', Str (num_str x)]) \<and>
   (\<forall>args. build_args num_str bundled (mergedConfig config) = Inr args \<longrightarrow>
      transcribe parse num_str spawn bundled config =
        (case spawn (get (mergedConfig config) ''pythonPath'') args transcribe_stdio of
           Throws e \<Rightarrow> Rejected e
         | Child events \<Rightarrow> promise (transcribe_child parse events))) \<and>
   (\<forall>config'. distinct (map fst config) \<and> distinct (map fst config') \<and>
      set config' = set config \<longrightarrow>
      build_args num_str bundled (mergedConfig config') =
        build_args num_str bundled (mergedConfig config)) \<and>
   (\<forall>n. \<bar>n\<bar> \<le> 2 ^ 53 - 1 \<longrightarrow>
      Number_toString (Finite (of_int n)) = dec_int n \<and>
      dec_int n = (if n < 0 then ''-'' else '''') @ dec_nat (nat \<bar>n\<bar>) \<and>
      list_all is_digit (dec_nat (nat \<bar>n\<bar>)) \<and>
      digits_val (dec_nat (nat \<bar>n\<bar>)) = nat \<bar>n\<bar>)"
proof (intro conjI allI impI)
  show "build_args num_str bundled (mergedConfig config) =
     (case get (mergedConfig config) ''maxDuration'' of
        Undefined \<Rightarrow>
          Inl (TypeError ''Cannot read properties of undefined (reading 'toString')'')
      | Str s \<Rightarrow>
          Inr [scriptPath bundled (mergedConfig config),
               Str ''--backend'', get (mergedConfig config) ''backend'',
               Str ''--model'', get (mergedConfig config) ''model'',
               Str ''--language'', get (mergedConfig config) ''language'',
               Str ''--duration'', Str s]
      | Num x \<Rightarrow>
          Inr [scriptPath bundled (mergedConfig config),
               Str ''--backend'', get (mergedConfig config) ''backend'',
               Str ''--model'', get (mergedConfig config) ''model'',
               Str ''--language'', get (mergedConfig config) ''language'',
               Str ''--duration'', Str (num_str x)])"
    by (rule build_args_cases)
next
  fix args
  assume "build_args num_str bundled (mergedConfig config) = Inr args"
  then show "transcribe parse num_str spawn bundled config =
        (case spawn (get (mergedConfig config) ''pythonPath'') args transcribe_stdio of
           Throws e \<Rightarrow> Rejected e
         | Child events \<Rightarrow> promise (transcribe_child parse events))"
    by (simp add: transcribe_def Let_def)
next
  fix config'
  assume "distinct (map fst config) \<and> distinct (map fst config') \<and> set config' = set config"
  then have "get (mergedConfig config') k = get (mergedConfig config) k" for k
    by (simp add: mergedConfig_key_order)
  then show "build_args num_str bundled (mergedConfig config') =
        build_args num_str bundled (mergedConfig config)"
    by (rule build_args_get_cong)
next
  fix n :: int
  assume "\<bar>n\<bar> \<le> 2 ^ 53 - 1"
  then show "Number_toString (Finite (of_int n)) = dec_int n"
    by (rule Number_toString_safe_integer)
next
  fix n :: int
  show "dec_int n = (if n < 0 then ''-'' else '''') @ dec_nat (nat \<bar>n\<bar>)"
    by (simp add: dec_int_def abs_if)
next
  fix n :: int
  show "list_all is_digit (dec_nat (nat \<bar>n\<bar>))"
    using dec_nat_decimal [of "nat \<bar>n\<bar>"] by simp
next
  fix n :: int
  show "digits_val (dec_nat (nat \<bar>n\<bar>)) = nat \<bar>n\<bar>"
    using dec_nat_decimal [of "nat \<bar>n\<bar>"] by simp
qed

theorem transcribe_args_order_witness:
  "build_args Number_toString ''/pkg/scripts/stt.py''
     (mergedConfig [(''language'', Str ''fr''), (''backend'', Str ''whisper'')]) =
     Inr [Str ''/pkg/scripts/stt.py'', Str ''--backend'', Str ''whisper'', Str ''--model'', Str ''tiny'',
          Str ''--language'', Str ''fr'', Str ''--duration'', Str ''30''] \<and>
   build_args Number_toString ''/pkg/scripts/stt.py''
     (mergedConfig [(''backend'', Str ''whisper''), (''language'', Str ''fr'')]) =
     Inr [Str ''/pkg/scripts/stt.py'', Str ''--backend'', Str ''whisper'', Str ''--model'', Str ''tiny'',
          Str ''--language'', Str ''fr'', Str ''--duration'', Str ''30''] \<and>
   transcribe JSON_parse Number_toString
     (\<lambda>cmd args stdio.
        if args = [Str ''/pkg/scripts/stt.py'', Str ''--backend'', Str ''whisper'', Str ''--model'',
                   Str ''tiny'', Str ''--language'', Str ''fr'', Str ''--duration'', Str ''30'']
        then Child [] else Throws (SpawnError ''other arguments''))
     ''/pkg/scripts/stt.py'' [(''language'', Str ''fr''), (''backend'', Str ''whisper'')] = Pending"
proof -
  let ?c = "[(''language'', Str ''fr''), (''backend'', Str ''whisper'')]"
  let ?c' = "[(''backend'', Str ''whisper''), (''language'', Str ''fr'')]"
  let ?b = "''/pkg/scripts/stt.py''"
  let ?l = "[Str ''/pkg/scripts/stt.py'', Str ''--backend'', Str ''whisper'', Str ''--model'',
             Str ''tiny'', Str ''--language'', Str ''fr'', Str ''--duration'', Str ''30'']"
  let ?s = "\<lambda>(cmd::cfgval) args (stdio::stdio_mode list).
              if args = ?l then Child [] else Throws (SpawnError ''other arguments'')"
  note t = transcribe_args_order [where num_str = Number_toString and bundled = ?b and config = ?c
      and parse = JSON_parse and spawn = ?s]
  have g: "get (mergedConfig ?c) ''maxDuration'' = Num (Finite 30)"
    "scriptPath ?b (mergedConfig ?c) = Str ?b"
    "get (mergedConfig ?c) ''backend'' = Str ''whisper''"
    "get (mergedConfig ?c) ''model'' = Str ''tiny''"
    "get (mergedConfig ?c) ''language'' = Str ''fr''"
    by (simp_all add: scriptPath_def get_def mergedConfig_def spread_def DEFAULT_CONFIG_def)
  from t have "build_args Number_toString ?b (mergedConfig ?c) =
     (case get (mergedConfig ?c) ''maxDuration'' of
        Undefined \<Rightarrow>
          Inl (TypeError ''Cannot read properties of undefined (reading 'toString')'')
      | Str s \<Rightarrow>
          Inr [scriptPath ?b (mergedConfig ?c),
               Str ''--backend'', get (mergedConfig ?c) ''backend'',
               Str ''--model'', get (mergedConfig ?c) ''model'',
               Str ''--language'', get (mergedConfig ?c) ''language'',
               Str ''--duration'', Str s]
      | Num x \<Rightarrow>
          Inr [scriptPath ?b (mergedConfig ?c),
               Str ''--backend'', get (mergedConfig ?c) ''backend'',
               Str ''--model'', get (mergedConfig ?c) ''model'',
               Str ''--language'', get (mergedConfig ?c) ''language'',
               Str ''--duration'', Str (Number_toString x)])"
    by (elim conjE)
  then have 1: "build_args Number_toString ?b (mergedConfig ?c) = Inr ?l"
    by (simp add: g Number_toString_30 del: Number_toString.simps)
  have s: "distinct (map fst ?c) \<and> distinct (map fst ?c') \<and> set ?c' = set ?c" by auto
  from t have "\<forall>config'. distinct (map fst ?c) \<and> distinct (map fst config') \<and>
      set config' = set ?c \<longrightarrow>
      build_args Number_toString ?b (mergedConfig config') =
        build_args Number_toString ?b (mergedConfig ?c)"
    by (elim conjE)
  from this [THEN spec, THEN mp, OF s] 1
  have 2: "build_args Number_toString ?b (mergedConfig ?c') = Inr ?l"
    by (rule trans)
  from t have "\<forall>args. build_args Number_toString ?b (mergedConfig ?c) = Inr args \<longrightarrow>
      transcribe JSON_parse Number_toString ?s ?b ?c =
        (case ?s (get (mergedConfig ?c) ''pythonPath'') args transcribe_stdio of
           Throws e \<Rightarrow> Rejected e
         | Child events \<Rightarrow> promise (transcribe_child JSON_parse events))"
    by (elim conjE)
  from this [THEN spec, THEN mp, OF 1]
  have 3: "transcribe JSON_parse Number_toString ?s ?b ?c = Pending"
    by (simp add: transcribe_child_def)
  from 1 2 3 show ?thesis by blast
qed

section \<open>Runs of transcribe\<close>

lemma resolve_Pending: "resolve v Pending = Resolved v"
  by (simp add: resolve_def)

lemma resolve_settled: "p \<noteq> Pending \<Longrightarrow> resolve v p = p"
  by (cases p) (simp_all add: resolve_def)

lemma emit_transcribe: "emit transcribe_listeners h st ev = h ev st"
  by (cases ev) (simp_all add: emit_def transcribe_listeners_def)

lemma transcribe_data:
  "list_all is_data pre \<Longrightarrow>
   foldl (emit transcribe_listeners (transcribe_handler parse)) st pre =
     st\<lparr>stdout := stdout st @ stdout_of pre, stderr := stderr st @ stderr_of pre\<rparr>"
proof (induction pre arbitrary: st)
  case Nil
  show ?case by simp
next
  case (Cons ev pre)
  then show ?case by (cases ev) (simp_all add: emit_transcribe)
qed

lemma transcribe_handler_settled:
  "promise st \<noteq> Pending \<Longrightarrow> promise (transcribe_handler parse ev st) = promise st"
  by (cases ev) (simp_all add: on_close_def resolve_settled split: option.splits)

lemma transcribe_settled:
  "promise st \<noteq> Pending \<Longrightarrow>
   promise (foldl (emit transcribe_listeners (transcribe_handler parse)) st evs) = promise st"
proof (induction evs arbitrary: st)
  case Nil
  show ?case by simp
next
  case (Cons ev evs)
  from Cons.prems have "promise (transcribe_handler parse ev st) = promise st"
    by (rule transcribe_handler_settled)
  with Cons show ?case by (simp add: emit_transcribe)
qed

text \<open>The first \<open>close\<close> or \<open>error\<close> settles the promise; what follows does not change it.\<close>

lemma transcribe_child_first:
  assumes "list_all is_data pre" and "\<not> is_data t"
  shows "promise (transcribe_child parse (pre @ t # post)) =
         promise (transcribe_handler parse t
           \<lparr>stdout = stdout_of pre, stderr = stderr_of pre, promise = Pending\<rparr>)"
proof -
  let ?s = "\<lparr>stdout = stdout_of pre, stderr = stderr_of pre, promise = Pending\<rparr>"
  have "promise (transcribe_handler parse t ?s) \<noteq> Pending"
    using assms(2) by (cases t) (simp_all add: on_close_def resolve_Pending split: option.splits)
  then show ?thesis
    using assms(1)
    by (simp add: transcribe_child_def transcribe_data transcribe_settled emit_transcribe)
qed

lemma transcribe_child_close:
  assumes "list_all is_data pre"
  shows "promise (transcribe_child parse (pre @ Close code # post)) =
     Resolved
       (if code \<noteq> Some 0 \<and> stdout_of pre = [] then
          Failure (if stderr_of pre \<noteq> [] then stderr_of pre
                   else ''Process exited with code '' @ code_str code)
        else case parse (trim (stdout_of pre)) of
               Some result \<Rightarrow> result
             | None \<Rightarrow> Failure (''Failed to parse output: '' @ stdout_of pre))"
  using assms
  by (simp add: transcribe_child_first on_close_def resolve_Pending split: option.splits)

lemma transcribe_child_error:
  assumes "list_all is_data pre"
  shows "promise (transcribe_child parse (pre @ ErrorEvent msg # post)) =
     Resolved (Failure (''Failed to start STT process: '' @ msg))"
  using assms by (simp add: transcribe_child_first resolve_Pending)

lemma transcribe_child_pending:
  assumes "list_all is_data evs"
  shows "promise (transcribe_child parse evs) = Pending"
  using assms by (simp add: transcribe_child_def transcribe_data)

lemma transcribe_spawned:
  assumes "build_args num_str bundled (mergedConfig config) = Inr args"
    and "spawn (get (mergedConfig config) ''pythonPath'') args transcribe_stdio = Child evs"
  shows "transcribe parse num_str spawn bundled config = promise (transcribe_child parse evs)"
  using assms by (simp add: transcribe_def Let_def)

lemma build_args_default:
  "build_args Number_toString bundled (mergedConfig []) =
     Inr [Str bundled, Str ''--backend'', Str ''auto'', Str ''--model'', Str ''tiny'',
          Str ''--language'', Str ''en'', Str ''--duration'', Str ''30'']"
  by (simp add: build_args_def scriptPath_def get_def mergedConfig_def spread_def
      DEFAULT_CONFIG_def Number_toString_30 del: Number_toString.simps)

text \<open>
  C3.  In a run of \<open>transcribe\<close> whose child emits only data before it closes with an exit
  code other than \<open>0\<close>, with nothing written to its standard output, the promise resolves
  to the failure object whose message is the accumulated standard error when that is
  not empty, and \<open>Process exited with code\<close> followed by the code otherwise.
\<close>

theorem nonzero_exit_empty_stdout:
  assumes "build_args num_str bundled (mergedConfig config) = Inr args"
    and "spawn (get (mergedConfig config) ''pythonPath'') args transcribe_stdio =
           Child (pre @ Close code # post)"
    and "list_all is_data pre"
    and "code \<noteq> Some 0" and "stdout_of pre = []"
  shows "transcribe parse num_str spawn bundled config =
     Resolved (Failure (if stderr_of pre \<noteq> [] then stderr_of pre
                        else ''Process exited with code '' @ code_str code))"
  using assms by (simp add: transcribe_spawned transcribe_child_close)

theorem nonzero_exit_empty_stdout_witness:
  "transcribe JSON_parse Number_toString (\<lambda>cmd args stdio. Child ([StderrData ''mic not '', StderrData ''found''] @ Close (Some 1) # []))
     ''/pkg/scripts/stt.py'' [] = Resolved (Failure ''mic not found'') \<and>
   transcribe JSON_parse Number_toString (\<lambda>cmd args stdio. Child ([] @ Close (Some 2) # []))
     ''/pkg/scripts/stt.py'' [] = Resolved (Failure ''Process exited with code 2'') \<and>
   transcribe JSON_parse Number_toString (\<lambda>cmd args stdio. Child ([] @ Close None # []))
     ''/pkg/scripts/stt.py'' [] = Resolved (Failure ''Process exited with code null'')"
proof -
  have two: "dec_int 2 = ''2''" by code_simp
  note b = build_args_default [of "''/pkg/scripts/stt.py''"]
  have 1: "transcribe JSON_parse Number_toString (\<lambda>cmd args stdio. Child ([StderrData ''mic not '', StderrData ''found''] @ Close (Some 1) # []))
     ''/pkg/scripts/stt.py'' [] = Resolved (Failure ''mic not found'')"
    using nonzero_exit_empty_stdout [OF b, where pre = "[StderrData ''mic not '', StderrData ''found'']"
        and code = "Some 1" and post = "[]" and parse = JSON_parse
        and spawn = "\<lambda>cmd args stdio. Child ([StderrData ''mic not '', StderrData ''found''] @ Close (Some 1) # [])"]
    by simp
  have 2: "transcribe JSON_parse Number_toString (\<lambda>cmd args stdio. Child ([] @ Close (Some 2) # []))
     ''/pkg/scripts/stt.py'' [] = Resolved (Failure ''Process exited with code 2'')"
    using nonzero_exit_empty_stdout [OF b, where pre = "[]"
        and code = "Some 2" and post = "[]" and parse = JSON_parse
        and spawn = "\<lambda>cmd args stdio. Child ([] @ Close (Some 2) # [])"]
    by (simp add: code_str_def two)
  have 3: "transcribe JSON_parse Number_toString (\<lambda>cmd args stdio. Child ([] @ Close None # []))
     ''/pkg/scripts/stt.py'' [] = Resolved (Failure ''Process exited with code null'')"
    using nonzero_exit_empty_stdout [OF b, where pre = "[]"
        and code = "None" and post = "[]" and parse = JSON_parse
        and spawn = "\<lambda>cmd args stdio. Child ([] @ Close None # [])"]
    by (simp add: code_str_def)
  from 1 2 3 show ?thesis by blast
qed

text \<open>
  C4.  In a run of \<open>transcribe\<close> whose child emits only data before it closes, with a
  standard output that is not empty, the result is what parsing the accumulated standard
  output, trimmed of white space at both ends, gives: the parsed value, or the
  \<open>Failed to parse output\<close> failure when the parser throws.  The exit code plays no part.
\<close>

theorem output_trumps_exit_code:
  assumes "build_args num_str bundled (mergedConfig config) = Inr args"
    and "spawn (get (mergedConfig config) ''pythonPath'') args transcribe_stdio =
           Child (pre @ Close code # post)"
    and "list_all is_data pre"
    and "stdout_of pre \<noteq> []"
  shows "transcribe parse num_str spawn bundled config =
     Resolved (case parse (trim (stdout_of pre)) of
                 Some result \<Rightarrow> result
               | None \<Rightarrow> Failure (''Failed to parse output: '' @ stdout_of pre))"
  using assms by (simp add: transcribe_spawned transcribe_child_close)

theorem output_trumps_exit_code_witness:
  "transcribe JSON_parse Number_toString
     (\<lambda>cmd args stdio. Child ([StdoutData (CHR 0x0A # '' {\"success\":true,''),
                                 StderrData ''warning'',
                                 StdoutData (''\"text\":\"hi\"} '' @ [CHR 0x0A])] @ Close (Some 1) # []))
     ''/pkg/scripts/stt.py'' [] =
   Resolved (JObject [(''success'', JBool True), (''text'', JString ''hi'')])"
proof -
  let ?pre = "[StdoutData (CHR 0x0A # '' {\"success\":true,''),
               StderrData ''warning'',
               StdoutData (''\"text\":\"hi\"} '' @ [CHR 0x0A])]"
  note b = build_args_default [of "''/pkg/scripts/stt.py''"]
  have p: "JSON_parse (trim (stdout_of ?pre)) =
           Some (JObject [(''success'', JBool True), (''text'', JString ''hi'')])"
    by code_simp
  have n: "stdout_of ?pre \<noteq> []" by simp
  have d: "list_all is_data ?pre" by simp
  from output_trumps_exit_code [where parse = JSON_parse and pre = ?pre and code = "Some 1"
      and post = "[]" and spawn = "\<lambda>cmd args stdio. Child (?pre @ Close (Some 1) # [])",
      OF b _ d n]
  show ?thesis by (simp only: p option.case)
qed

text \<open>
  C5.  In a run of \<open>transcribe\<close> whose child emits only data before it closes, if the
  trimmed standard output does not parse, the promise resolves (it does not reject) to a
  failure object whose message contains the raw standard output; whenever the parse is
  attempted (exit code \<open>0\<close>, or some output), the message is \<open>Failed to parse output:\<close>
  followed by the raw, untrimmed standard output.  Exit code \<open>0\<close> with no output is such
  a run.
\<close>

theorem parse_failure_is_Failure:
  assumes "build_args num_str bundled (mergedConfig config) = Inr args"
    and "spawn (get (mergedConfig config) ''pythonPath'') args transcribe_stdio =
           Child (pre @ Close code # post)"
    and "list_all is_data pre"
    and "parse (trim (stdout_of pre)) = None"
  shows "(\<exists>msg. transcribe parse num_str spawn bundled config = Resolved (Failure msg) \<and>
                sublist (stdout_of pre) msg) \<and>
         (code = Some 0 \<or> stdout_of pre \<noteq> [] \<longrightarrow>
            transcribe parse num_str spawn bundled config =
              Resolved (Failure (''Failed to parse output: '' @ stdout_of pre)))"
proof -
  have r: "transcribe parse num_str spawn bundled config =
      Resolved (if code \<noteq> Some 0 \<and> stdout_of pre = [] then
          Failure (if stderr_of pre \<noteq> [] then stderr_of pre
                   else ''Process exited with code '' @ code_str code)
        else Failure (''Failed to parse output: '' @ stdout_of pre))"
    using assms by (simp add: transcribe_spawned transcribe_child_close)
  show ?thesis
  proof (cases "code \<noteq> Some 0 \<and> stdout_of pre = []")
    case True
    with r show ?thesis by auto
  next
    case False
    have "sublist (stdout_of pre) (''Failed to parse output: '' @ stdout_of pre)"
      using sublist_appendI [of "stdout_of pre" "''Failed to parse output: ''" "[]"] by simp
    with False r show ?thesis by auto
  qed
qed

theorem parse_failure_is_Failure_witness:
  "transcribe JSON_parse Number_toString
     (\<lambda>cmd args stdio. Child ([StdoutData ''Traceback: no '', StdoutData ''module''] @ Close (Some 0) # []))
     ''/pkg/scripts/stt.py'' [] =
     Resolved (Failure ''Failed to parse output: Traceback: no module'') \<and>
   transcribe JSON_parse Number_toString (\<lambda>cmd args stdio. Child ([] @ Close (Some 0) # []))
     ''/pkg/scripts/stt.py'' [] = Resolved (Failure ''Failed to parse output: '')"
proof -
  let ?pre = "[StdoutData ''Traceback: no '', StdoutData ''module'']"
  note b = build_args_default [of "''/pkg/scripts/stt.py''"]
  have p: "JSON_parse (trim (stdout_of ?pre)) = None" by code_simp
  have q: "JSON_parse (trim (stdout_of [])) = None" by code_simp
  have d: "list_all is_data ?pre" by simp
  have e: "list_all is_data []" by simp
  from parse_failure_is_Failure [where parse = JSON_parse and pre = ?pre and code = "Some 0"
      and post = "[]" and spawn = "\<lambda>cmd args stdio. Child (?pre @ Close (Some 0) # [])",
      OF b _ d p]
  have 1: "transcribe JSON_parse Number_toString (\<lambda>cmd args stdio. Child (?pre @ Close (Some 0) # []))
     ''/pkg/scripts/stt.py'' [] =
     Resolved (Failure ''Failed to parse output: Traceback: no module'')"
    by simp
  from parse_failure_is_Failure [where parse = JSON_parse and pre = "[]" and code = "Some 0"
      and post = "[]" and spawn = "\<lambda>cmd args stdio. Child ([] @ Close (Some 0) # [])",
      OF b _ e q]
  have 2: "transcribe JSON_parse Number_toString (\<lambda>cmd args stdio. Child ([] @ Close (Some 0) # []))
     ''/pkg/scripts/stt.py'' [] = Resolved (Failure ''Failed to parse output: '')"
    by simp
  from 1 2 show ?thesis by blast
qed

lemma build_args_Inr_iff:
  "(\<exists>args. build_args num_str bundled merged = Inr args) = (get merged ''maxDuration'' \<noteq> Undefined)"
  by (cases "get merged ''maxDuration''") (simp_all add: build_args_def)

lemma first_not_data:
  assumes "\<not> list_all is_data evs"
  shows "\<exists>pre t post. evs = pre @ t # post \<and> list_all is_data pre \<and> \<not> is_data t"
proof -
  from assms have "\<exists>ev\<in>set evs. \<not> is_data ev"
    by (simp add: list_all_iff)
  then obtain pre t post where "evs = pre @ t # post" "\<not> is_data t" "\<forall>y\<in>set pre. \<not> \<not> is_data y"
    using split_list_first_prop [of evs "\<lambda>ev. \<not> is_data ev"] by blast
  then show ?thesis by (auto simp: list_all_iff)
qed

lemma transcribe_child_settles:
  assumes "\<not> list_all is_data evs"
  shows "\<exists>v. promise (transcribe_child parse evs) = Resolved v"
proof -
  from first_not_data [OF assms] obtain pre t post
    where e: "evs = pre @ t # post" and d: "list_all is_data pre" and t: "\<not> is_data t"
    by blast
  from t show ?thesis
  proof (cases t)
    case (Close code)
    with e d show ?thesis by (simp add: transcribe_child_close)
  next
    case (ErrorEvent msg)
    with e d show ?thesis by (simp add: transcribe_child_error)
  qed simp_all
qed

lemma transcribe_child_not_rejected:
  "promise (transcribe_child parse evs) \<noteq> Rejected e"
proof (cases "list_all is_data evs")
  case True
  then show ?thesis by (simp add: transcribe_child_pending)
next
  case False
  from transcribe_child_settles [OF this, of parse] show ?thesis by auto
qed

text \<open>
  C1 as stated fails: for the caller's configuration \<open>{maxDuration: undefined}\<close> the merged
  \<open>maxDuration\<close> is \<open>undefined\<close>, \<open>mergedConfig.maxDuration.toString()\<close> throws a
  \<open>TypeError\<close> in the body of the \<open>async\<close> function, and the promise is rejected.
\<close>

theorem transcribe_rejects_undefined_maxDuration:
  "transcribe JSON_parse Number_toString (\<lambda>cmd args stdio. Child [Close (Some 0)]) ''/pkg/scripts/stt.py''
     [(''maxDuration'', Undefined)] =
   Rejected (TypeError ''Cannot read properties of undefined (reading 'toString')'')"
proof -
  have "get (mergedConfig [(''maxDuration'', Undefined)]) ''maxDuration'' = Undefined"
    by (simp add: get_mergedConfig_present)
  then show ?thesis
    by (simp add: transcribe_def Let_def build_args_def)
qed

text \<open>
  C1, as amended.  When the argument list is built (the merged \<open>maxDuration\<close> is not
  \<open>undefined\<close>) and \<open>spawn\<close> returns a child, the promise of \<open>transcribe\<close> is never
  rejected, whatever the child emits: it is pending while the child has emitted only
  data, and resolved to a value from the first \<open>close\<close> or \<open>error\<close> on.  An \<open>error\<close>
  event that comes first resolves it to the failure \<open>Failed to start STT process:\<close>
  followed by the error's message.
\<close>

theorem transcribe_never_rejects:
  assumes "build_args num_str bundled (mergedConfig config) = Inr args"
    and "spawn (get (mergedConfig config) ''pythonPath'') args transcribe_stdio = Child evs"
  shows "get (mergedConfig config) ''maxDuration'' \<noteq> Undefined \<and>
         (\<forall>e. transcribe parse num_str spawn bundled config \<noteq> Rejected e) \<and>
         (list_all is_data evs \<longrightarrow> transcribe parse num_str spawn bundled config = Pending) \<and>
         (\<not> list_all is_data evs \<longrightarrow> (\<exists>v. transcribe parse num_str spawn bundled config = Resolved v)) \<and>
         (\<forall>pre msg post. evs = pre @ ErrorEvent msg # post \<and> list_all is_data pre \<longrightarrow>
            transcribe parse num_str spawn bundled config =
              Resolved (Failure (''Failed to start STT process: '' @ msg)))"
proof -
  note t = transcribe_spawned [where parse = parse and spawn = spawn, OF assms]
  from assms(1) have "get (mergedConfig config) ''maxDuration'' \<noteq> Undefined"
    using build_args_Inr_iff [of num_str bundled "mergedConfig config"] by blast
  moreover have "\<forall>e. transcribe parse num_str spawn bundled config \<noteq> Rejected e"
    by (simp add: t transcribe_child_not_rejected)
  moreover have "list_all is_data evs \<longrightarrow> transcribe parse num_str spawn bundled config = Pending"
    by (simp add: t transcribe_child_pending)
  moreover have "\<not> list_all is_data evs \<longrightarrow> (\<exists>v. transcribe parse num_str spawn bundled config = Resolved v)"
    by (simp add: t transcribe_child_settles)
  moreover have "\<forall>pre msg post. evs = pre @ ErrorEvent msg # post \<and> list_all is_data pre \<longrightarrow>
            transcribe parse num_str spawn bundled config =
              Resolved (Failure (''Failed to start STT process: '' @ msg))"
    by (simp add: t transcribe_child_error)
  ultimately show ?thesis by blast
qed

theorem transcribe_never_rejects_witness:
  "transcribe JSON_parse Number_toString (\<lambda>cmd args stdio. Child ([] @ ErrorEvent ''spawn nopython ENOENT'' # [Close (Some (- 2))]))
     ''/pkg/scripts/stt.py'' [(''pythonPath'', Str ''nopython'')] =
     Resolved (Failure ''Failed to start STT process: spawn nopython ENOENT'') \<and>
   transcribe JSON_parse Number_toString (\<lambda>cmd args stdio. Child [StdoutData ''{'']) ''/pkg/scripts/stt.py''
     [(''pythonPath'', Str ''nopython'')] = Pending"
proof -
  let ?c = "[(''pythonPath'', Str ''nopython'')]"
  have "get (mergedConfig ?c) ''maxDuration'' \<noteq> Undefined"
    by (simp add: get_def mergedConfig_def spread_def DEFAULT_CONFIG_def)
  then obtain args where b: "build_args Number_toString ''/pkg/scripts/stt.py'' (mergedConfig ?c) = Inr args"
    using build_args_Inr_iff [of Number_toString "''/pkg/scripts/stt.py''" "mergedConfig ?c"] by blast
  let ?e = "[ErrorEvent ''spawn nopython ENOENT'', Close (Some (- 2))]"
  note w = transcribe_never_rejects [where parse = JSON_parse
      and spawn = "\<lambda>cmd args stdio. Child ?e", OF b refl]
  then have "\<forall>pre msg post. ?e = pre @ ErrorEvent msg # post \<and> list_all is_data pre \<longrightarrow>
      transcribe JSON_parse Number_toString (\<lambda>cmd args stdio. Child ?e) ''/pkg/scripts/stt.py'' ?c =
        Resolved (Failure (''Failed to start STT process: '' @ msg))"
    by (elim conjE)
  from this [rule_format, of "[]" "''spawn nopython ENOENT''" "[Close (Some (- 2))]"]
  have 1: "transcribe JSON_parse Number_toString (\<lambda>cmd args stdio. Child ([] @ ErrorEvent ''spawn nopython ENOENT'' # [Close (Some (- 2))]))
     ''/pkg/scripts/stt.py'' ?c =
     Resolved (Failure ''Failed to start STT process: spawn nopython ENOENT'')"
    by simp
  from transcribe_never_rejects [where parse = JSON_parse
      and spawn = "\<lambda>cmd args stdio. Child [StdoutData ''{'']", OF b refl]
  have 2: "transcribe JSON_parse Number_toString (\<lambda>cmd args stdio. Child [StdoutData ''{'']) ''/pkg/scripts/stt.py''
     ?c = Pending"
    by simp
  from 1 2 show ?thesis by blast
qed

lemma SttResult_Failure: "SttResult (Failure msg) \<and> is_Failure (Failure msg)"
  by (simp add: is_Failure_def SttResult_def success_tag_def Failure_def optional_string_def)

lemma not_Success_and_Failure: "\<not> (is_Success v \<and> is_Failure v)"
  by (simp add: is_Success_def is_Failure_def)

lemma transcribe_child_resolved:
  assumes "promise (transcribe_child parse evs) = Resolved v"
  shows "(\<exists>msg. v = Failure msg) \<or>
         (\<exists>pre code post. evs = pre @ Close code # post \<and> list_all is_data pre \<and>
            parse (trim (stdout_of pre)) = Some v)"
proof (cases "list_all is_data evs")
  case True
  with assms show ?thesis by (simp add: transcribe_child_pending)
next
  case False
  from first_not_data [OF this] obtain pre t post
    where e: "evs = pre @ t # post" and d: "list_all is_data pre" and t: "\<not> is_data t"
    by blast
  from t show ?thesis
  proof (cases t)
    case (Close code)
    show ?thesis
    proof (cases "parse (trim (stdout_of pre))")
      case None
      with assms e d Close show ?thesis
        by (auto simp: transcribe_child_close split: if_splits)
    next
      case (Some r)
      show ?thesis
      proof (cases "code \<noteq> Some 0 \<and> stdout_of pre = []")
        case True
        with assms e d Close show ?thesis
          by (auto simp: transcribe_child_close)
      next
        case False
        with assms e d Close Some have "v = r"
          by (auto simp: transcribe_child_close)
        with e d Close Some show ?thesis by blast
      qed
    qed
  next
    case (ErrorEvent msg)
    with assms e d show ?thesis by (auto simp: transcribe_child_error)
  qed simp_all
qed

text \<open>
  C2, as amended.  In a run where the argument list is built and \<open>spawn\<close> returns a child,
  a value that \<open>transcribe\<close> resolves with is settled once, by the first \<open>close\<close> or
  \<open>error\<close>, and is either a failure object built by \<open>transcribe\<close> itself (which has the
  shape of \<open>SttResult\<close>, tagged as a failure) or exactly the value the parser returned
  for the trimmed standard output, passed on unchecked.  No value is both a success and
  a failure.
\<close>

theorem transcribe_result_shape:
  assumes "build_args num_str bundled (mergedConfig config) = Inr args"
    and "spawn (get (mergedConfig config) ''pythonPath'') args transcribe_stdio = Child evs"
    and "transcribe parse num_str spawn bundled config = Resolved v"
  shows "((\<exists>msg. v = Failure msg \<and> SttResult v \<and> is_Failure v) \<or>
          (\<exists>pre code post. evs = pre @ Close code # post \<and> list_all is_data pre \<and>
             parse (trim (stdout_of pre)) = Some v)) \<and>
         \<not> (is_Success v \<and> is_Failure v) \<and>
         (\<forall>pre t post. evs = pre @ t # post \<and> list_all is_data pre \<and> \<not> is_data t \<longrightarrow>
            promise (transcribe_child parse (pre @ [t])) = Resolved v)"
proof -
  note t = transcribe_spawned [where parse = parse and spawn = spawn, OF assms(1,2)]
  with assms(3) have r: "promise (transcribe_child parse evs) = Resolved v" by simp
  from transcribe_child_resolved [OF r] SttResult_Failure
  have a: "(\<exists>msg. v = Failure msg \<and> SttResult v \<and> is_Failure v) \<or>
          (\<exists>pre code post. evs = pre @ Close code # post \<and> list_all is_data pre \<and>
             parse (trim (stdout_of pre)) = Some v)"
    by blast
  have c: "promise (transcribe_child parse (pre @ [t])) = Resolved v"
    if "evs = pre @ t # post" "list_all is_data pre" "\<not> is_data t" for pre t post
  proof -
    from that r have "promise (transcribe_child parse (pre @ t # post)) = Resolved v" by simp
    with that show ?thesis by (simp add: transcribe_child_first)
  qed
  from a not_Success_and_Failure [of v] c show ?thesis by blast
qed

theorem transcribe_result_shape_witness:
  "transcribe JSON_parse Number_toString
     (\<lambda>cmd args stdio. Child [StdoutData ''{\"success\":true,\"text\":\"hello\",\"backend\":\"moonshine\",\"model\":\"tiny\"}'',
                               Close (Some 0)])
     ''/pkg/scripts/stt.py'' [] =
     Resolved (JObject [(''success'', JBool True), (''text'', JString ''hello''),
                        (''backend'', JString ''moonshine''), (''model'', JString ''tiny'')]) \<and>
   \<not> is_Failure (JObject [(''success'', JBool True), (''text'', JString ''hello''),
                        (''backend'', JString ''moonshine''), (''model'', JString ''tiny'')])"
proof -
  let ?out = "''{\"success\":true,\"text\":\"hello\",\"backend\":\"moonshine\",\"model\":\"tiny\"}''"
  let ?e = "[StdoutData ?out, Close (Some 0)]"
  let ?v = "JObject [(''success'', JBool True), (''text'', JString ''hello''),
                     (''backend'', JString ''moonshine''), (''model'', JString ''tiny'')]"
  let ?s = "\<lambda>(cmd::cfgval) (args::cfgval list) (stdio::stdio_mode list). Child ?e"
  note b = build_args_default [of "''/pkg/scripts/stt.py''"]
  have p: "JSON_parse (trim (stdout_of [StdoutData ?out])) = Some ?v"
    by code_simp
  have o: "stdout_of [StdoutData ?out] \<noteq> []" by simp
  have d: "list_all is_data [StdoutData ?out]" by simp
  have "promise (transcribe_child JSON_parse ([StdoutData ?out] @ Close (Some 0) # [])) = Resolved ?v"
    by (simp only: transcribe_child_close [OF d] o p) simp
  then have r: "transcribe JSON_parse Number_toString ?s ''/pkg/scripts/stt.py'' [] = Resolved ?v"
    by (simp add: transcribe_spawned [where spawn = ?s, OF b refl])
  have s: "is_Success ?v"
    by (simp add: is_Success_def SttResult_def success_tag_def optional_string_def)
  from transcribe_result_shape [where parse = JSON_parse and spawn = ?s, OF b refl r] s r
  show ?thesis by blast
qed

text \<open>
  C2 as stated fails: when the worker writes \<open>null\<close>, \<open>[1]\<close> or \<open>42\<close> and exits with code
  \<open>0\<close>, \<open>transcribe\<close> resolves with the parsed \<open>null\<close>, array or number, none of which has
  the shape of \<open>SttResult\<close>.
\<close>

theorem transcribe_resolves_non_result:
  "transcribe JSON_parse Number_toString (\<lambda>cmd args stdio. Child [StdoutData ''null'', Close (Some 0)])
     ''/pkg/scripts/stt.py'' [] = Resolved JNull \<and>
   \<not> SttResult JNull \<and>
   transcribe JSON_parse Number_toString (\<lambda>cmd args stdio. Child [StdoutData ''[1]'', Close (Some 0)])
     ''/pkg/scripts/stt.py'' [] = Resolved (JArray [JNumber 1]) \<and>
   \<not> SttResult (JArray [JNumber 1]) \<and>
   transcribe JSON_parse Number_toString (\<lambda>cmd args stdio. Child [StdoutData ''42'', Close (Some 0)])
     ''/pkg/scripts/stt.py'' [] = Resolved (JNumber 42) \<and>
   \<not> SttResult (JNumber 42)"
proof -
  note b = build_args_default [of "''/pkg/scripts/stt.py''"]
  have run: "transcribe JSON_parse Number_toString (\<lambda>cmd args stdio. Child [StdoutData out, Close (Some 0)])
      ''/pkg/scripts/stt.py'' [] = Resolved v"
    if "out \<noteq> []" "JSON_parse (trim out) = Some v" for out v
  proof -
    have d: "list_all is_data [StdoutData out]" by simp
    from transcribe_child_close [OF d, of JSON_parse "Some 0" "[]"] that
    have "promise (transcribe_child JSON_parse [StdoutData out, Close (Some 0)]) = Resolved v"
      by simp
    then show ?thesis
      by (simp add: transcribe_spawned
          [where spawn = "\<lambda>cmd args stdio. Child [StdoutData out, Close (Some 0)]", OF b refl])
  qed
  have 1: "JSON_parse (trim ''null'') = Some JNull" by code_simp
  have 2: "JSON_parse (trim ''[1]'') = Some (JArray [JNumber 1])" by code_simp
  have 3: "JSON_parse (trim ''42'') = Some (JNumber 42)" by code_simp
  from run [OF _ 1] run [OF _ 2] run [OF _ 3] show ?thesis
    by (simp add: SttResult_def)
qed

section \<open>Runs of listBackends\<close>

lemma emit_listBackends:
  "emit listBackends_listeners h st ev = (case ev of StderrData d \<Rightarrow> st | _ \<Rightarrow> h ev st)"
  by (cases ev) (simp_all add: emit_def listBackends_listeners_def)

lemma listBackends_data:
  "list_all is_data pre \<Longrightarrow>
   foldl (emit listBackends_listeners (listBackends_handler parse)) st pre =
     st\<lparr>probe_stdout := probe_stdout st @ stdout_of pre\<rparr>"
proof (induction pre arbitrary: st)
  case Nil
  show ?case by simp
next
  case (Cons ev pre)
  then show ?case by (cases ev) (simp_all add: emit_listBackends)
qed

lemma listBackends_handler_settled:
  "probe_promise st \<noteq> Pending \<Longrightarrow>
   probe_promise (emit listBackends_listeners (listBackends_handler parse) st ev) = probe_promise st"
  by (cases ev)
    (simp_all add: emit_listBackends probe_on_close_def resolve_settled
      split: option.splits sum.splits)

lemma listBackends_settled:
  "probe_promise st \<noteq> Pending \<Longrightarrow>
   probe_promise (foldl (emit listBackends_listeners (listBackends_handler parse)) st evs) =
     probe_promise st"
proof (induction evs arbitrary: st)
  case Nil
  show ?case by simp
next
  case (Cons ev evs)
  from Cons.prems
  have "probe_promise (emit listBackends_listeners (listBackends_handler parse) st ev) =
        probe_promise st"
    by (rule listBackends_handler_settled)
  with Cons show ?case by simp
qed

lemma listBackends_child_first:
  assumes "list_all is_data pre" and "\<not> is_data t"
  shows "probe_promise (listBackends_child parse (pre @ t # post)) =
         probe_promise (listBackends_handler parse t
           \<lparr>probe_stdout = stdout_of pre, probe_promise = Pending\<rparr>)"
proof -
  let ?s = "\<lparr>probe_stdout = stdout_of pre, probe_promise = Pending\<rparr>"
  from assms(2) have e: "emit listBackends_listeners (listBackends_handler parse) ?s t =
      listBackends_handler parse t ?s"
    by (cases t) (simp_all add: emit_listBackends)
  have "probe_promise (listBackends_handler parse t ?s) \<noteq> Pending"
    using assms(2)
    by (cases t) (simp_all add: probe_on_close_def resolve_Pending split: option.splits sum.splits)
  with e show ?thesis
    using assms(1)
    by (simp add: listBackends_child_def listBackends_data listBackends_settled)
qed

lemma listBackends_child_close:
  assumes "list_all is_data pre"
  shows "probe_promise (listBackends_child parse (pre @ Close code # post)) =
     Resolved
       (case parse (trim (stdout_of pre)) of
          None \<Rightarrow> JArray []
        | Some result \<Rightarrow>
            (case prop_read result ''available_backends'' of
               Inl e \<Rightarrow> JArray []
             | Inr v \<Rightarrow> or_empty v))"
  using assms
  by (simp add: listBackends_child_first probe_on_close_def resolve_Pending
      split: option.splits sum.splits)

lemma listBackends_child_error:
  assumes "list_all is_data pre"
  shows "probe_promise (listBackends_child parse (pre @ ErrorEvent msg # post)) =
     Resolved (JArray [])"
  using assms by (simp add: listBackends_child_first resolve_Pending)

lemma listBackends_spawned:
  assumes "spawn (if pythonPath = Undefined then Str ''python3'' else pythonPath)
             [Str bundled, Str ''--list-backends''] listBackends_stdio = Child evs"
  shows "listBackends parse spawn bundled pythonPath =
         probe_promise (listBackends_child parse evs)"
  using assms by (simp add: listBackends_def)

text \<open>
  C6, as amended.  In a run of \<open>listBackends\<close> where \<open>spawn\<close> returns a child that emits only
  data before its first \<open>close\<close> or \<open>error\<close>, the promise is never rejected; it resolves to
  the empty list when \<open>error\<close> comes first, when the trimmed standard output does not
  parse, when the parsed value is \<open>null\<close>, when it has no field \<open>available_backends\<close>,
  and when that field is falsy (\<open>null\<close>, \<open>false\<close>, \<open>0\<close>, the empty string).  A field with
  any other value is resolved as it is, a list or not.
\<close>

theorem listBackends_degrades_to_empty:
  assumes "spawn (if pythonPath = Undefined then Str ''python3'' else pythonPath)
             [Str bundled, Str ''--list-backends''] listBackends_stdio =
           Child (pre @ t # post)"
    and "list_all is_data pre" and "\<not> is_data t"
  shows "(\<forall>e. listBackends parse spawn bundled pythonPath \<noteq> Rejected e) \<and>
    ((\<exists>msg. t = ErrorEvent msg) \<longrightarrow>
       listBackends parse spawn bundled pythonPath = Resolved (JArray [])) \<and>
    ((\<exists>code. t = Close code) \<longrightarrow>
       (parse (trim (stdout_of pre)) = None \<longrightarrow>
          listBackends parse spawn bundled pythonPath = Resolved (JArray [])) \<and>
       (\<forall>r. parse (trim (stdout_of pre)) = Some r \<longrightarrow>
          (r = JNull \<longrightarrow> listBackends parse spawn bundled pythonPath = Resolved (JArray [])) \<and>
          (prop_read r ''available_backends'' = Inr None \<longrightarrow>
             listBackends parse spawn bundled pythonPath = Resolved (JArray [])) \<and>
          (\<forall>v. prop_read r ''available_backends'' = Inr (Some v) \<longrightarrow>
             listBackends parse spawn bundled pythonPath =
               Resolved (if truthy_json v then v else JArray []))))"
proof -
  note s = listBackends_spawned [where parse = parse and spawn = spawn, OF assms(1)]
  from assms(3) show ?thesis
  proof (cases t)
    case (Close code)
    with assms(2) show ?thesis
      by (auto simp: s listBackends_child_close)
  next
    case (ErrorEvent msg)
    with assms(2) show ?thesis
      by (simp add: s listBackends_child_error)
  qed simp_all
qed

theorem listBackends_degrades_to_empty_witness:
  "listBackends JSON_parse
     (\<lambda>cmd args stdio. Child ([StderrData ''warn'',
          StdoutData ''{\"available_backends\":[\"moonshine\",\"whisper\"]}''] @ Close (Some 0) # []))
     ''/pkg/scripts/stt.py'' Undefined =
     Resolved (JArray [JString ''moonshine'', JString ''whisper'']) \<and>
   listBackends JSON_parse
     (\<lambda>cmd args stdio. Child ([StdoutData ''{\"available_backends\":null}''] @ Close (Some 0) # []))
     ''/pkg/scripts/stt.py'' Undefined = Resolved (JArray []) \<and>
   listBackends JSON_parse
     (\<lambda>cmd args stdio. Child ([] @ ErrorEvent ''spawn python3 ENOENT'' # [Close (Some (- 2))]))
     ''/pkg/scripts/stt.py'' Undefined = Resolved (JArray [])"
proof -
  let ?p1 = "[StderrData ''warn'',
              StdoutData ''{\"available_backends\":[\"moonshine\",\"whisper\"]}'']"
  let ?p2 = "[StdoutData ''{\"available_backends\":null}'']"
  let ?r1 = "JObject [(''available_backends'', JArray [JString ''moonshine'', JString ''whisper''])]"
  let ?r2 = "JObject [(''available_backends'', JNull)]"
  have j1: "JSON_parse (trim ''{\"available_backends\":[\"moonshine\",\"whisper\"]}'') = Some ?r1"
    by code_simp
  have j2: "JSON_parse (trim ''{\"available_backends\":null}'') = Some ?r2"
    by code_simp
  have d1: "list_all is_data ?p1" by simp
  have d2: "list_all is_data ?p2" by simp
  have d3: "list_all is_data []" by simp
  have t1: "\<not> is_data (Close (Some 0))" by simp
  have t3: "\<not> is_data (ErrorEvent ''spawn python3 ENOENT'')" by simp
  from listBackends_degrades_to_empty [where parse = JSON_parse and pythonPath = Undefined
      and bundled = "''/pkg/scripts/stt.py''"
      and spawn = "\<lambda>cmd args stdio. Child (?p1 @ Close (Some 0) # [])", OF refl d1 t1]
  have 1: "listBackends JSON_parse (\<lambda>cmd args stdio. Child (?p1 @ Close (Some 0) # []))
     ''/pkg/scripts/stt.py'' Undefined =
     Resolved (JArray [JString ''moonshine'', JString ''whisper''])"
    by (simp add: j1)
  from listBackends_degrades_to_empty [where parse = JSON_parse and pythonPath = Undefined
      and bundled = "''/pkg/scripts/stt.py''"
      and spawn = "\<lambda>cmd args stdio. Child (?p2 @ Close (Some 0) # [])", OF refl d2 t1]
  have 2: "listBackends JSON_parse (\<lambda>cmd args stdio. Child (?p2 @ Close (Some 0) # []))
     ''/pkg/scripts/stt.py'' Undefined = Resolved (JArray [])"
    by (simp add: j2)
  from listBackends_degrades_to_empty [where parse = JSON_parse and pythonPath = Undefined
      and bundled = "''/pkg/scripts/stt.py''"
      and spawn = "\<lambda>cmd args stdio. Child ([] @ ErrorEvent ''spawn python3 ENOENT'' # [Close (Some (- 2))])",
      OF refl d3 t3]
  have 3: "listBackends JSON_parse
     (\<lambda>cmd args stdio. Child ([] @ ErrorEvent ''spawn python3 ENOENT'' # [Close (Some (- 2))]))
     ''/pkg/scripts/stt.py'' Undefined = Resolved (JArray [])"
    by simp
  from 1 2 3 show ?thesis by blast
qed

text \<open>
  C6 as stated fails: for the output \<open>{"available_backends":"moonshine"}\<close> the field is a
  string, not a list, and \<open>listBackends\<close> resolves with the string; for
  \<open>{"available_backends":7}\<close> it resolves with the number.
\<close>

theorem listBackends_passes_non_list:
  "listBackends JSON_parse
     (\<lambda>cmd args stdio. Child [StdoutData ''{\"available_backends\":\"moonshine\"}'', Close (Some 0)])
     ''/pkg/scripts/stt.py'' (Str ''python3'') = Resolved (JString ''moonshine'') \<and>
   listBackends JSON_parse
     (\<lambda>cmd args stdio. Child [StdoutData ''{\"available_backends\":7}'', Close (Some 0)])
     ''/pkg/scripts/stt.py'' (Str ''python3'') = Resolved (JNumber 7)"
proof -
  have run: "listBackends JSON_parse (\<lambda>cmd args stdio. Child [StdoutData out, Close (Some 0)])
      ''/pkg/scripts/stt.py'' (Str ''python3'') = Resolved v"
    if "JSON_parse (trim out) = Some (JObject [(''available_backends'', v)])" "truthy_json v"
    for out v
  proof -
    have d: "list_all is_data [StdoutData out]" by simp
    from listBackends_child_close [OF d, of JSON_parse "Some 0" "[]"] that
    have "probe_promise (listBackends_child JSON_parse [StdoutData out, Close (Some 0)]) =
          Resolved v"
      by simp
    then show ?thesis by (simp add: listBackends_def)
  qed
  have 1: "JSON_parse (trim ''{\"available_backends\":\"moonshine\"}'') =
           Some (JObject [(''available_backends'', JString ''moonshine'')])"
    by code_simp
  have 2: "JSON_parse (trim ''{\"available_backends\":7}'') =
           Some (JObject [(''available_backends'', JNumber 7)])"
    by code_simp
  from run [OF 1] run [OF 2] show ?thesis by simp
qed

text \<open>
  C9.  Both functions spawn with \<open>stdio: ["inherit", "pipe", "pipe"]\<close>.  \<open>transcribe\<close>
  attaches a \<open>data\<close> listener to each piped stream.  \<open>listBackends\<close> attaches one to the
  standard output only: its piped standard error has no consumer, and what the child
  writes there is never read.
\<close>

theorem listBackends_stderr_undrained:
  "undrained transcribe_stdio transcribe_listeners = [] \<and>
   piped listBackends_stdio = [Stdout, Stderr] \<and>
   undrained listBackends_stdio listBackends_listeners = [Stderr] \<and>
   listBackends_child parse (StderrData d # evs) = listBackends_child parse evs"
  by (simp add: undrained_def piped_def transcribe_stdio_def transcribe_listeners_def
      listBackends_stdio_def listBackends_listeners_def listBackends_child_def emit_def)

end
